theory Spec2Isabelle
  imports Complex_Main "HOL-Library.Multiset"
begin

section \<open>JavaScript values, strings and objects\<close>

subsection \<open>Numbers\<close>

text \<open>
  A JavaScript number is an IEEE 754 double. A finite double is represented by the rational
  number it stands for (the sign of a zero is not kept), and every operation whose exact
  result need not be a double rounds it to the nearest one, to the even significand on a
  tie: \<open>dbl\<close>. A double has a significand of 53 bits, so the spacing of the doubles
  around \<open>r\<close> is \<open>2 ^ (e - 52)\<close> for the binary exponent \<open>e\<close> of \<open>r\<close>, and
  \<open>2 ^ - 1074\<close> for the subnormal ones.
\<close>

function bit_length :: "int \<Rightarrow> nat" where
  "bit_length n = (if n \<le> 0 then 0 else Suc (bit_length (n div 2)))"
  by pat_completeness auto

termination bit_length
  by (relation "measure nat") auto

declare bit_length.simps [simp del]

definition pow2 :: "int \<Rightarrow> rat" where
  "pow2 e = (if 0 \<le> e then 2 ^ nat e else 1 / 2 ^ nat (- e))"

text \<open>The \<open>e\<close> with \<open>2 ^ e \<le> a < 2 ^ (e + 1)\<close>, for a positive \<open>a\<close>.\<close>

definition binary_exponent :: "rat \<Rightarrow> int" where
  "binary_exponent a =
     (let d = int (bit_length (fst (quotient_of a))) - int (bit_length (snd (quotient_of a)))
      in if pow2 d \<le> a then d else d - 1)"

definition round_half_even :: "rat \<Rightarrow> int" where
  "round_half_even m =
     (let f = \<lfloor>m\<rfloor>; d = m - of_int f
      in if d < 1 / 2 then f else if 1 / 2 < d then f + 1 else if even f then f else f + 1)"

text \<open>
  The nearest double, leaving the largest finite double aside: a result of magnitude
  \<open>2 ^ 1024\<close> or more, which is one of binary exponent 1024 or more, stands for an
  overflow.
\<close>

definition dbl :: "rat \<Rightarrow> rat" where
  "dbl r =
     (if r = 0 then 0
      else (let ulp = pow2 (max (binary_exponent \<bar>r\<bar>) (- 1022) - 52)
            in sgn r * of_int (round_half_even (\<bar>r\<bar> / ulp)) * ulp))"

definition overflows :: "rat \<Rightarrow> bool" where
  "overflows r = (1024 \<le> binary_exponent \<bar>dbl r\<bar>)"

subsection \<open>Values\<close>

text \<open>
  The server works on rows produced by the CSV parser with dynamic typing switched on, so a
  cell is a string, a number, a boolean or null; a property that a row does not have reads
  as undefined, unless its name is one that every plain object inherits from
  Object.prototype. Every element of a data array is such an object. A number is a finite
  double or one of the two infinities (\<open>JInfinity True\<close> is the negative one); the parser
  and the cleaner produce no NaN. Strings are lists of 8-bit code units, with the white
  space and the letter cases of that range.
\<close>

datatype jsval =
    JUndefined
  | JNull
  | JBool bool
  | JNum rat
  | JInfinity bool
  | JStr string
  | JInherited string

text \<open>An object literal: its own properties in property order.\<close>

type_synonym row = "(string \<times> jsval) list"

definition inherited_keys :: "string list" where
  "inherited_keys =
     [''constructor'', ''__defineGetter__'', ''__defineSetter__'', ''hasOwnProperty'',
      ''__lookupGetter__'', ''__lookupSetter__'', ''isPrototypeOf'', ''propertyIsEnumerable'',
      ''toString'', ''valueOf'', ''__proto__'', ''toLocaleString'']"

text \<open>\<open>obj[k]\<close> on a plain object.\<close>

definition get_prop :: "row \<Rightarrow> string \<Rightarrow> jsval" where
  "get_prop r k =
     (case map_of r k of
        Some v \<Rightarrow> v
      | None \<Rightarrow> if k \<in> set inherited_keys then JInherited k else JUndefined)"

definition Object_keys :: "row \<Rightarrow> string list" where
  "Object_keys r = map fst r"

fun typeof :: "jsval \<Rightarrow> string" where
  "typeof JUndefined = ''undefined''"
| "typeof JNull = ''object''"
| "typeof (JBool b) = ''boolean''"
| "typeof (JNum n) = ''number''"
| "typeof (JInfinity neg) = ''number''"
| "typeof (JStr s) = ''string''"
| "typeof (JInherited k) = (if k = ''__proto__'' then ''object'' else ''function'')"

fun truthy :: "jsval \<Rightarrow> bool" where
  "truthy JUndefined = False"
| "truthy JNull = False"
| "truthy (JBool b) = b"
| "truthy (JNum n) = (n \<noteq> 0)"
| "truthy (JInfinity neg) = True"
| "truthy (JStr s) = (s \<noteq> [])"
| "truthy (JInherited k) = True"

subsection \<open>String primitives\<close>

definition is_digit :: "char \<Rightarrow> bool" where
  "is_digit c = (48 \<le> (of_char c :: nat) \<and> (of_char c :: nat) \<le> 57)"

definition digit_val :: "char \<Rightarrow> nat" where
  "digit_val c = (of_char c :: nat) - 48"

definition digit_char :: "nat \<Rightarrow> char" where
  "digit_char d = char_of (48 + d)"

text \<open>The value of a string of decimal digits, most significant first.\<close>

definition dec_val :: "string \<Rightarrow> nat" where
  "dec_val s = foldl (\<lambda>n c. 10 * n + digit_val c) 0 s"

fun show_nat :: "nat \<Rightarrow> string" where
  "show_nat n = (if n < 10 then [digit_char n] else show_nat (n div 10) @ [digit_char (n mod 10)])"

declare show_nat.simps [simp del]

definition js_whitespace :: "char \<Rightarrow> bool" where
  "js_whitespace c = ((of_char c :: nat) \<in> set [9, 10, 11, 12, 13, 32, 160])"

definition trim :: "string \<Rightarrow> string" where
  "trim s = rev (dropWhile js_whitespace (rev (dropWhile js_whitespace s)))"

definition lower_char :: "char \<Rightarrow> char" where
  "lower_char c =
     (let n = (of_char c :: nat) in
      if (65 \<le> n \<and> n \<le> 90) \<or> (192 \<le> n \<and> n \<le> 222 \<and> n \<noteq> 215) then char_of (n + 32) else c)"

definition toLowerCase :: "string \<Rightarrow> string" where
  "toLowerCase s = map lower_char s"

fun starts_with :: "string \<Rightarrow> string \<Rightarrow> bool" where
  "starts_with s [] = True"
| "starts_with [] (p # ps) = False"
| "starts_with (c # cs) (p # ps) = (c = p \<and> starts_with cs ps)"

text \<open>\<open>s.includes(p)\<close>\<close>

fun str_includes :: "string \<Rightarrow> string \<Rightarrow> bool" where
  "str_includes [] p = (p = [])"
| "str_includes (c # cs) p = (starts_with (c # cs) p \<or> str_includes cs p)"

text \<open>\<open>s.substring(0, n)\<close>\<close>

definition substring0 :: "string \<Rightarrow> nat \<Rightarrow> string" where
  "substring0 s n = take n s"

subsection \<open>Objects used as dictionaries\<close>

text \<open>
  An object literal that is filled under keys found in the data. Its own keys are kept in
  property order: array indices first, in ascending order, then the other keys in the
  order of their creation.
\<close>

definition is_array_index :: "string \<Rightarrow> bool" where
  "is_array_index k = (k \<noteq> [] \<and> list_all is_digit k \<and> show_nat (dec_val k) = k \<and> int (dec_val k) < 4294967295)"

definition has_own :: "(string \<times> 'a) list \<Rightarrow> string \<Rightarrow> bool" where
  "has_own m k = (k \<in> set (map fst m))"

fun obj_insert :: "string \<Rightarrow> 'a \<Rightarrow> (string \<times> 'a) list \<Rightarrow> (string \<times> 'a) list" where
  "obj_insert k v [] = [(k, v)]"
| "obj_insert k v ((k', v') # m) =
     (if is_array_index k \<and> (\<not> is_array_index k' \<or> dec_val k < dec_val k')
      then (k, v) # (k', v') # m
      else (k', v') # obj_insert k v m)"

text \<open>
  \<open>if (!m[k]) m[k] = init\<close> for a dictionary of objects: a key that the dictionary
  owns, or that it inherits from Object.prototype, reads as a truthy value.
\<close>

definition ensure :: "(string \<times> 'a) list \<Rightarrow> string \<Rightarrow> 'a \<Rightarrow> (string \<times> 'a) list" where
  "ensure m k init = (if has_own m k \<or> k \<in> set inherited_keys then m else obj_insert k init m)"

text \<open>
  \<open>m[k].field++\<close> and the like: under an inherited key the write lands on a member of
  Object.prototype and leaves the dictionary as it was.
\<close>

definition modify :: "(string \<times> 'a) list \<Rightarrow> string \<Rightarrow> ('a \<Rightarrow> 'a) \<Rightarrow> (string \<times> 'a) list" where
  "modify m k f = map (\<lambda>(k', v). if k' = k then (k', f v) else (k', v)) m"

text \<open>
  \<open>obj[k] = v\<close> for a primitive \<open>v\<close>: an existing property keeps its place, a new one
  takes its place in property order, and under the key \<open>__proto__\<close> no own property is
  created.
\<close>

definition obj_assign :: "(string \<times> 'a) list \<Rightarrow> string \<Rightarrow> 'a \<Rightarrow> (string \<times> 'a) list" where
  "obj_assign m k v =
     (if has_own m k then modify m k (\<lambda>_. v)
      else if k = ''__proto__'' then m
      else obj_insert k v m)"

section \<open>server/utils.js: DataUtils\<close>

subsection \<open>The strict date parse of the moment library\<close>

text \<open>
  The library is not part of the repository; this is the behaviour of the version that
  package.json asks for (2.29).
  \<open>moment(s, formats, true)\<close> tries the formats in order. In strict mode a format is
  valid only if its tokens match the input from left to right with no character skipped or
  left over, every numeric token with its exact width, and the parsed fields do not
  overflow. The first valid format is the one kept.
\<close>

datatype field = Year | Month | Day | Hour | Minute | Second

datatype fmt_token = Num field nat | Lit char

record moment =
  m_year :: nat
  m_month :: nat
  m_day :: nat
  m_hour :: nat
  m_minute :: nat
  m_second :: nat

fun strict_parse :: "fmt_token list \<Rightarrow> string \<Rightarrow> (field \<times> nat) list option" where
  "strict_parse [] s = (if s = [] then Some [] else None)"
| "strict_parse (Lit c # ts) s =
     (case s of [] \<Rightarrow> None | d # r \<Rightarrow> if d = c then strict_parse ts r else None)"
| "strict_parse (Num f n # ts) s =
     (if n \<le> length s \<and> list_all is_digit (take n s)
      then map_option ((#) (f, dec_val (take n s))) (strict_parse ts (drop n s))
      else None)"

definition field_of :: "(field \<times> nat) list \<Rightarrow> field \<Rightarrow> nat \<Rightarrow> nat" where
  "field_of a f dflt = (case map_of a f of Some v \<Rightarrow> v | None \<Rightarrow> dflt)"

definition isLeapYear :: "nat \<Rightarrow> bool" where
  "isLeapYear y = ((y mod 4 = 0 \<and> y mod 100 \<noteq> 0) \<or> y mod 400 = 0)"

definition daysInMonth :: "nat \<Rightarrow> nat \<Rightarrow> nat" where
  "daysInMonth y m =
     (if m = 2 then (if isLeapYear y then 29 else 28)
      else if m \<in> set [4, 6, 9, 11] then 30 else 31)"

text \<open>The overflow check; months are counted from 1 here.\<close>

definition no_overflow :: "moment \<Rightarrow> bool" where
  "no_overflow m =
     (1 \<le> m_month m \<and> m_month m \<le> 12
      \<and> 1 \<le> m_day m \<and> m_day m \<le> daysInMonth (m_year m) (m_month m)
      \<and> (m_hour m < 24 \<or> (m_hour m = 24 \<and> m_minute m = 0 \<and> m_second m = 0))
      \<and> m_minute m \<le> 59 \<and> m_second m \<le> 59)"

definition parse_format :: "fmt_token list \<Rightarrow> string \<Rightarrow> moment option" where
  "parse_format fmt s =
     (case strict_parse fmt s of
        None \<Rightarrow> None
      | Some a \<Rightarrow>
          (let m = \<lparr>m_year = field_of a Year 0, m_month = field_of a Month 1,
                    m_day = field_of a Day 1, m_hour = field_of a Hour 0,
                    m_minute = field_of a Minute 0, m_second = field_of a Second 0\<rparr>
           in if no_overflow m then Some m else None))"

definition date_formats :: "fmt_token list list" where
  "date_formats =
     [[Num Year 4, Lit CHR ''-'', Num Month 2, Lit CHR ''-'', Num Day 2],
      [Num Month 2, Lit CHR ''/'', Num Day 2, Lit CHR ''/'', Num Year 4],
      [Num Day 2, Lit CHR ''/'', Num Month 2, Lit CHR ''/'', Num Year 4],
      [Num Year 4, Lit CHR ''-'', Num Month 2, Lit CHR ''-'', Num Day 2, Lit CHR '' '',
       Num Hour 2, Lit CHR '':'', Num Minute 2, Lit CHR '':'', Num Second 2]]"

fun first_valid :: "fmt_token list list \<Rightarrow> string \<Rightarrow> moment option" where
  "first_valid [] s = None"
| "first_valid (f # fs) s =
     (case parse_format f s of Some m \<Rightarrow> Some m | None \<Rightarrow> first_valid fs s)"

definition moment_strict :: "string \<Rightarrow> moment option" where
  "moment_strict s = first_valid date_formats s"

subsection \<open>convertValue\<close>

text \<open>\<open>/^\d+$/\<close> and \<open>/^\d*\.\d+$/\<close>\<close>

definition re_integer :: "string \<Rightarrow> bool" where
  "re_integer s = (s \<noteq> [] \<and> list_all is_digit s)"

definition re_float :: "string \<Rightarrow> bool" where
  "re_float s =
     (case dropWhile is_digit s of
        [] \<Rightarrow> False
      | c # r \<Rightarrow> c = CHR ''.'' \<and> r \<noteq> [] \<and> list_all is_digit r)"

text \<open>The number value of a real: the nearest double, or an infinity on overflow.\<close>

definition number_value :: "rat \<Rightarrow> jsval" where
  "number_value r = (if overflows r then JInfinity (r < 0) else JNum (dbl r))"

text \<open>
  \<open>parseInt(s, 10)\<close> on a string of digits: the number value of the integer that the
  digits write. (The language lets an engine read every digit after the twentieth as 0;
  V8, on which the server runs, rounds the integer itself.)
\<close>

definition parseInt10 :: "string \<Rightarrow> jsval" where
  "parseInt10 s = number_value (of_nat (dec_val s))"

text \<open>\<open>parseFloat\<close> on a string that matched \<open>re_float\<close>.\<close>

definition parseFloat_plain :: "string \<Rightarrow> jsval" where
  "parseFloat_plain s =
     (let ip = takeWhile is_digit s; fp = drop 1 (dropWhile is_digit s)
      in number_value (of_nat (dec_val ip) + of_nat (dec_val fp) / of_nat (10 ^ length fp)))"

text \<open>
  \<open>toISOString\<close> renders a local-time moment in UTC, so its text depends on the time zone
  of the host; the rendering is a parameter.
\<close>

definition convertValue :: "(moment \<Rightarrow> string) \<Rightarrow> jsval \<Rightarrow> jsval" where
  "convertValue toISOString v =
     (case v of
        JStr s \<Rightarrow>
          (let trimmed = trim s in
           if re_integer trimmed then parseInt10 trimmed
           else if re_float trimmed then parseFloat_plain trimmed
           else (case moment_strict trimmed of
                   Some dateValue \<Rightarrow> JStr (toISOString dateValue)
                 | None \<Rightarrow>
                     (let lowerValue = toLowerCase trimmed in
                      if lowerValue \<in> set [''true'', ''yes'', ''1'', ''y''] then JBool True
                      else if lowerValue \<in> set [''false'', ''no'', ''0'', ''n''] then JBool False
                      else JStr trimmed)))
      | _ \<Rightarrow> v)"

subsection \<open>cleanData\<close>

text \<open>The argument of \<open>cleanData\<close>: an array of rows, or anything that is not an array.\<close>

datatype cleaner_arg = NotArray jsval | Rows "row list"

text \<open>The returned object; a count that the object does not carry is \<open>None\<close>.\<close>

record clean_result =
  data :: "row list"
  errors :: "string list"
  warnings :: "string list"
  originalCount :: "nat option"
  cleanedCount :: "nat option"

definition is_blank :: "jsval \<Rightarrow> bool" where
  "is_blank v = (v = JNull \<or> v = JUndefined \<or> v = JStr [])"

text \<open>The body of the inner loop over the columns, on \<open>cleanedRow\<close> and \<open>hasValidData\<close>.\<close>

definition clean_col :: "(moment \<Rightarrow> string) \<Rightarrow> row \<Rightarrow> row \<times> bool \<Rightarrow> string \<Rightarrow> row \<times> bool" where
  "clean_col toISOString r st col =
     (let v = get_prop r col in
      if is_blank v then (obj_assign (fst st) col JNull, snd st)
      else (obj_assign (fst st) col (convertValue toISOString v), True))"

definition clean_row :: "(moment \<Rightarrow> string) \<Rightarrow> string list \<Rightarrow> row \<Rightarrow> row \<times> bool" where
  "clean_row toISOString columns r = foldl (clean_col toISOString r) ([], False) columns"

text \<open>The outer loop, carrying \<open>cleanedData\<close> and \<open>warnings\<close>; \<open>index\<close> counts from 0.\<close>

fun clean_rows ::
  "(moment \<Rightarrow> string) \<Rightarrow> string list \<Rightarrow> nat \<Rightarrow> row list \<Rightarrow> row list \<times> string list
     \<Rightarrow> row list \<times> string list" where
  "clean_rows toISOString columns index [] acc = acc"
| "clean_rows toISOString columns index (r # rs) (cleanedData, warns) =
     (case clean_row toISOString columns r of
        (cleanedRow, hasValidData) \<Rightarrow>
          clean_rows toISOString columns (index + 1) rs
            (if hasValidData then (cleanedData @ [cleanedRow], warns)
             else (cleanedData,
                   warns @ [''Row '' @ show_nat (index + 1) @ '' contains no valid data''])))"

definition cleanData :: "(moment \<Rightarrow> string) \<Rightarrow> cleaner_arg \<Rightarrow> clean_result" where
  "cleanData toISOString arg =
     (case arg of
        NotArray v \<Rightarrow>
          \<lparr>data = [], errors = [''No data provided''], warnings = [],
           originalCount = None, cleanedCount = None\<rparr>
      | Rows rows \<Rightarrow>
          (case rows of
             [] \<Rightarrow>
               \<lparr>data = [], errors = [''No data provided''], warnings = [],
                originalCount = None, cleanedCount = None\<rparr>
           | first # rest \<Rightarrow>
               (let columns = Object_keys first in
                if columns = [] then
                  \<lparr>data = [], errors = [''No columns detected in data''], warnings = [],
                   originalCount = None, cleanedCount = None\<rparr>
                else
                  (case clean_rows toISOString columns 0 rows ([], []) of
                     (cleanedData, warns) \<Rightarrow>
                       \<lparr>data = cleanedData, errors = [],
                        warnings =
                          (if of_nat (length cleanedData) < dbl (of_nat (length rows) * dbl (4 / 5))
                           then warns @ [''More than 20% of rows were filtered out due to data quality issues'']
                           else warns),
                        originalCount = Some (length rows),
                        cleanedCount = Some (length cleanedData)\<rparr>))))"

text \<open>The column set is taken from the first row.\<close>

definition declared_columns :: "row list \<Rightarrow> string list" where
  "declared_columns rows = (case rows of [] \<Rightarrow> [] | first # rest \<Rightarrow> Object_keys first)"

text \<open>The value that the inner loop stores for a column of a row.\<close>

definition normalized :: "(moment \<Rightarrow> string) \<Rightarrow> row \<Rightarrow> string \<Rightarrow> jsval" where
  "normalized toISOString r col =
     (if is_blank (get_prop r col) then JNull else convertValue toISOString (get_prop r col))"

text \<open>A row in which every declared column normalized to null.\<close>

definition all_null :: "(moment \<Rightarrow> string) \<Rightarrow> string list \<Rightarrow> row \<Rightarrow> bool" where
  "all_null toISOString columns r = list_all (\<lambda>col. normalized toISOString r col = JNull) columns"

section \<open>The SLA performance analyzer\<close>

subsection \<open>Numbers, their text and the host\<close>

text \<open>
  A value that the code throws. The analyzer raises nothing itself; what can fail is a
  method call or a property read on a value that does not have it.
\<close>

datatype js_error = TypeError

text \<open>A number as arithmetic can produce it.\<close>

datatype jsnum = Fin rat | NaN | PosInf | NegInf

text \<open>
  What the analyzer takes from its host: the clock (\<open>new Date().toISOString()\<close>, read
  once for each ticket, by index), the weekday of a date string as the property key under
  which it is stored (\<open>String(new Date(s).getDay())\<close>: one of "0" to "6", or "NaN"), and
  the text of a number.
\<close>

record host =
  now :: "nat \<Rightarrow> string"
  getDay :: "string \<Rightarrow> string"
  number_toString :: "rat \<Rightarrow> string"

text \<open>\<open>String(v)\<close>, which is also the property key that \<open>obj[v]\<close> uses.\<close>

fun to_string :: "host \<Rightarrow> jsval \<Rightarrow> string" where
  "to_string h (JStr s) = s"
| "to_string h (JNum n) = number_toString h n"
| "to_string h (JInfinity neg) = (if neg then ''-Infinity'' else ''Infinity'')"
| "to_string h (JBool b) = (if b then ''true'' else ''false'')"
| "to_string h JNull = ''null''"
| "to_string h JUndefined = ''undefined''"
| "to_string h (JInherited k) =
     (if k = ''__proto__'' then ''[object Object]''
      else ''function '' @ (if k = ''constructor'' then ''Object'' else k) @ ''() { [native code] }'')"

text \<open>
  \<open>x.toFixed(1)\<close> for a double \<open>x\<close> below \<open>10 ^ 21\<close> in magnitude: the sign, then the
  integer \<open>n\<close> for which \<open>n / 10\<close> is nearest to the exact value of \<open>|x|\<close> (the larger
  one on a tie), written with one digit after the point.
\<close>

definition tenths :: "rat \<Rightarrow> nat" where
  "tenths x = nat \<lfloor>\<bar>x\<bar> * 10 + 1 / 2\<rfloor>"

definition toFixed1 :: "rat \<Rightarrow> string" where
  "toFixed1 x =
     (let n = tenths x
      in (if x < 0 then ''-'' else []) @ show_nat (n div 10) @ ''.'' @ show_nat (n mod 10))"

text \<open>
  \<open>parseFloat\<close> on a string: leading white space, a sign, then the longest prefix that
  is a decimal literal (digits, a fraction, an exponent) or the word Infinity.
\<close>

definition parse_exponent :: "string \<Rightarrow> int" where
  "parse_exponent r =
     (case r of
        [] \<Rightarrow> 0
      | e # r1 \<Rightarrow>
          if e = CHR ''e'' \<or> e = CHR ''E'' then
            (case r1 of
               [] \<Rightarrow> 0
             | c # r2 \<Rightarrow>
                 if c = CHR ''-'' then (if takeWhile is_digit r2 = [] then 0 else - int (dec_val (takeWhile is_digit r2)))
                 else if c = CHR ''+'' then (if takeWhile is_digit r2 = [] then 0 else int (dec_val (takeWhile is_digit r2)))
                 else int (dec_val (takeWhile is_digit r1)))
          else 0)"

definition pow10 :: "int \<Rightarrow> rat" where
  "pow10 e = (if 0 \<le> e then 10 ^ nat e else 1 / 10 ^ nat (- e))"

text \<open>The number that a decimal literal denotes: the nearest double, or an infinity.\<close>

definition round_number :: "rat \<Rightarrow> jsnum" where
  "round_number r = (if overflows r then (if r < 0 then NegInf else PosInf) else Fin (dbl r))"

definition parseFloat_string :: "string \<Rightarrow> jsnum" where
  "parseFloat_string s =
     (let t = dropWhile js_whitespace s;
          neg = starts_with t ''-'';
          u = (if starts_with t ''-'' \<or> starts_with t ''+'' then drop 1 t else t)
      in if starts_with u ''Infinity'' then (if neg then NegInf else PosInf)
         else
           (let ip = takeWhile is_digit u;
                r1 = dropWhile is_digit u;
                fp = (if starts_with r1 ''.'' then takeWhile is_digit (drop 1 r1) else []);
                r2 = (if starts_with r1 ''.'' then dropWhile is_digit (drop 1 r1) else r1)
            in if ip = [] \<and> fp = [] then NaN
               else
                 (let m = (of_nat (dec_val ip) + of_nat (dec_val fp) / of_nat (10 ^ length fp))
                          * pow10 (parse_exponent r2)
                  in round_number (if neg then - m else m))))"

text \<open>\<open>parseFloat(v)\<close>: the argument is turned into a string first.\<close>

fun parseFloat :: "jsval \<Rightarrow> jsnum" where
  "parseFloat (JStr s) = parseFloat_string s"
| "parseFloat (JNum n) = Fin n"
| "parseFloat (JInfinity neg) = (if neg then NegInf else PosInf)"
| "parseFloat v = NaN"

text \<open>
  \<open>a - b\<close>, and the comparisons \<open>a < b\<close> and \<open>a > b\<close>, false whenever NaN takes part.
  The difference of two finite numbers is the exact one: a comparator is only asked for
  the sign of its result, which rounding keeps (two distinct doubles differ by a multiple
  of \<open>2 ^ - 1074\<close>, which does not round to zero); \<open>rounded\<close> gives the double where its
  magnitude matters.
\<close>

fun js_minus :: "jsnum \<Rightarrow> jsnum \<Rightarrow> jsnum" where
  "js_minus (Fin a) (Fin b) = Fin (a - b)"
| "js_minus NaN b = NaN"
| "js_minus a NaN = NaN"
| "js_minus PosInf PosInf = NaN"
| "js_minus NegInf NegInf = NaN"
| "js_minus PosInf b = PosInf"
| "js_minus NegInf b = NegInf"
| "js_minus (Fin a) PosInf = NegInf"
| "js_minus (Fin a) NegInf = PosInf"

fun js_less :: "jsnum \<Rightarrow> jsnum \<Rightarrow> bool" where
  "js_less (Fin a) (Fin b) = (a < b)"
| "js_less NaN b = False"
| "js_less a NaN = False"
| "js_less PosInf b = False"
| "js_less NegInf b = (b \<noteq> NegInf)"
| "js_less (Fin a) PosInf = True"
| "js_less (Fin a) NegInf = False"

fun rounded :: "jsnum \<Rightarrow> jsnum" where
  "rounded (Fin r) = round_number r"
| "rounded x = x"

definition js_greater :: "jsnum \<Rightarrow> jsnum \<Rightarrow> bool" where
  "js_greater a b = js_less b a"

text \<open>
  \<open>xs.sort(cmp)\<close>: the sort is stable, and an element moves behind another only when the
  comparator, given the two in that order, returns a positive number.
\<close>

fun insert_by :: "('a \<Rightarrow> 'a \<Rightarrow> jsnum) \<Rightarrow> 'a \<Rightarrow> 'a list \<Rightarrow> 'a list" where
  "insert_by cmp x [] = [x]"
| "insert_by cmp x (y # ys) =
     (if js_greater (cmp x y) (Fin 0) then y # insert_by cmp x ys else x # y # ys)"

definition sort_by :: "('a \<Rightarrow> 'a \<Rightarrow> jsnum) \<Rightarrow> 'a list \<Rightarrow> 'a list" where
  "sort_by cmp xs = foldr (insert_by cmp) xs []"

subsection \<open>Counts keyed by strings\<close>

text \<open>
  \<open>if (!c[k]) c[k] = 0; c[k]++\<close> for a dictionary of counts; \<open>None\<close> is the count NaN,
  which an inherited function leaves behind when it is incremented.
\<close>

definition count_bump :: "(string \<times> nat option) list \<Rightarrow> string \<Rightarrow> (string \<times> nat option) list" where
  "count_bump c k =
     (case map_of c k of
        Some (Some n) \<Rightarrow> modify c k (\<lambda>_. Some (n + 1))
      | Some None \<Rightarrow> modify c k (\<lambda>_. Some 1)
      | None \<Rightarrow>
          if k \<in> set inherited_keys
          then (if k = ''__proto__'' then c else obj_insert k None c)
          else obj_insert k (Some 1) c)"

subsection \<open>The analysis object\<close>

record sla_bucket =
  violations :: nat
  compliance :: nat
  total :: nat
  compliancePercentage :: string
  violationPercentage :: string

record agent_stats =
  agent_total :: nat
  agent_responseViolations :: nat
  agent_resolutionViolations :: nat
  agent_totalViolations :: nat
  agent_complianceRate :: jsval
  agent_averageResponseTime :: nat
  agent_categories :: "(string \<times> nat option) list"
  agent_priorities :: "(string \<times> nat option) list"
  agent_topCategory :: "string option"

record category_stats =
  category_total :: nat
  category_responseViolations :: nat
  category_resolutionViolations :: nat
  category_agents :: "(string \<times> nat) list"
  category_averageResolutionTime :: nat
  category_complianceRate :: "jsval option"

record priority_stats =
  priority_total :: nat
  priority_responseViolations :: nat
  priority_resolutionViolations :: nat
  priority_complianceRate :: jsval

record time_bucket =
  tb_total :: nat
  tb_violations :: nat

record performanceTrends =
  daily :: "(string \<times> time_bucket) list"
  weekly :: "(string \<times> time_bucket) list"
  monthly :: "(string \<times> time_bucket) list"

record analysis =
  totalTickets :: nat
  firstResponseSLA :: sla_bucket
  resolutionSLA :: sla_bucket
  agents :: "(string \<times> agent_stats) list"
  categories :: "(string \<times> category_stats) list"
  timePatterns :: "(string \<times> time_bucket) list"
  priorityAnalysis :: "(string \<times> priority_stats) list"
  trends :: performanceTrends

definition empty_bucket :: sla_bucket where
  "empty_bucket =
     \<lparr>violations = 0, compliance = 0, total = 0,
      compliancePercentage = ''0'', violationPercentage = ''0''\<rparr>"

definition initial_analysis :: "nat \<Rightarrow> analysis" where
  "initial_analysis n =
     \<lparr>totalTickets = n, firstResponseSLA = empty_bucket, resolutionSLA = empty_bucket,
      agents = [], categories = [], timePatterns = [], priorityAnalysis = [],
      trends = \<lparr>daily = [], weekly = [], monthly = []\<rparr>\<rparr>"

definition new_agent :: agent_stats where
  "new_agent =
     \<lparr>agent_total = 0, agent_responseViolations = 0, agent_resolutionViolations = 0,
      agent_totalViolations = 0, agent_complianceRate = JNum 100, agent_averageResponseTime = 0,
      agent_categories = [], agent_priorities = [], agent_topCategory = None\<rparr>"

definition new_category :: category_stats where
  "new_category =
     \<lparr>category_total = 0, category_responseViolations = 0, category_resolutionViolations = 0,
      category_agents = [], category_averageResolutionTime = 0, category_complianceRate = None\<rparr>"

definition new_priority :: priority_stats where
  "new_priority =
     \<lparr>priority_total = 0, priority_responseViolations = 0, priority_resolutionViolations = 0,
      priority_complianceRate = JNum 100\<rparr>"

definition new_time_bucket :: time_bucket where
  "new_time_bucket = \<lparr>tb_total = 0, tb_violations = 0\<rparr>"

subsection \<open>One ticket\<close>

text \<open>\<open>a || b || ... || d\<close>: the first truthy operand, or else the last one.\<close>

fun first_truthy :: "jsval list \<Rightarrow> jsval \<Rightarrow> jsval" where
  "first_truthy [] d = d"
| "first_truthy (v # vs) d = (if truthy v then v else first_truthy vs d)"

definition firstResponseColumns :: "string list" where
  "firstResponseColumns =
     [''First Response Status'', ''First Response SLA'', ''Response Status'',
      ''first_response_status'', ''Response SLA Status'', ''First Response Time Status'']"

definition resolutionColumns :: "string list" where
  "resolutionColumns =
     [''Resolution Status'', ''Resolution SLA'', ''Resolve Status'',
      ''resolution_status'', ''Resolution SLA Status'', ''Resolution Time Status'']"

text \<open>The \<open>for\<close> loop over the candidate columns: the first truthy cell, or null.\<close>

definition find_status :: "string list \<Rightarrow> row \<Rightarrow> jsval" where
  "find_status cols ticket = first_truthy (map (get_prop ticket) cols) JNull"

datatype status_class = Violation | Compliant | Neither

definition classify :: "string \<Rightarrow> status_class" where
  "classify statusLower =
     (if str_includes statusLower ''violated'' \<or> str_includes statusLower ''breach''
         \<or> str_includes statusLower ''missed'' \<or> str_includes statusLower ''overdue''
         \<or> str_includes statusLower ''fail''
      then Violation
      else if str_includes statusLower ''within'' \<or> str_includes statusLower ''met''
         \<or> str_includes statusLower ''compliant'' \<or> str_includes statusLower ''achieved''
         \<or> str_includes statusLower ''success''
      then Compliant
      else Neither)"

text \<open>The keys under which one ticket is counted.\<close>

record ticket_keys =
  k_agent :: string
  k_category :: string
  k_priority :: string
  k_dateKey :: string
  k_dayOfWeek :: string
  k_monthKey :: string

definition bump_time_violations :: "ticket_keys \<Rightarrow> analysis \<Rightarrow> analysis" where
  "bump_time_violations k a =
     a\<lparr>timePatterns := modify (timePatterns a) (k_dateKey k) (\<lambda>b. b\<lparr>tb_violations := tb_violations b + 1\<rparr>),
       trends := (trends a)
         \<lparr>daily := modify (daily (trends a)) (k_dayOfWeek k) (\<lambda>b. b\<lparr>tb_violations := tb_violations b + 1\<rparr>),
          monthly := modify (monthly (trends a)) (k_monthKey k) (\<lambda>b. b\<lparr>tb_violations := tb_violations b + 1\<rparr>)\<rparr>\<rparr>"

definition first_response :: "host \<Rightarrow> ticket_keys \<Rightarrow> row \<Rightarrow> analysis \<Rightarrow> analysis" where
  "first_response h k ticket a =
     (let firstResponseStatus = find_status firstResponseColumns ticket in
      if truthy firstResponseStatus then
        (let a1 = a\<lparr>firstResponseSLA := (firstResponseSLA a)\<lparr>total := total (firstResponseSLA a) + 1\<rparr>\<rparr>;
             statusLower = toLowerCase (to_string h firstResponseStatus)
         in case classify statusLower of
              Violation \<Rightarrow>
                bump_time_violations k
                  (a1\<lparr>firstResponseSLA := (firstResponseSLA a1)\<lparr>violations := violations (firstResponseSLA a1) + 1\<rparr>,
                      agents := modify (agents a1) (k_agent k)
                        (\<lambda>d. d\<lparr>agent_responseViolations := agent_responseViolations d + 1\<rparr>),
                      categories := modify (categories a1) (k_category k)
                        (\<lambda>d. d\<lparr>category_responseViolations := category_responseViolations d + 1\<rparr>),
                      priorityAnalysis := modify (priorityAnalysis a1) (k_priority k)
                        (\<lambda>d. d\<lparr>priority_responseViolations := priority_responseViolations d + 1\<rparr>)\<rparr>)
            | Compliant \<Rightarrow>
                a1\<lparr>firstResponseSLA := (firstResponseSLA a1)\<lparr>compliance := compliance (firstResponseSLA a1) + 1\<rparr>\<rparr>
            | Neither \<Rightarrow> a1)
      else a)"

definition resolution :: "host \<Rightarrow> ticket_keys \<Rightarrow> row \<Rightarrow> analysis \<Rightarrow> analysis" where
  "resolution h k ticket a =
     (let resolutionStatus = find_status resolutionColumns ticket in
      if truthy resolutionStatus then
        (let a1 = a\<lparr>resolutionSLA := (resolutionSLA a)\<lparr>total := total (resolutionSLA a) + 1\<rparr>\<rparr>;
             statusLower = toLowerCase (to_string h resolutionStatus)
         in case classify statusLower of
              Violation \<Rightarrow>
                bump_time_violations k
                  (a1\<lparr>resolutionSLA := (resolutionSLA a1)\<lparr>violations := violations (resolutionSLA a1) + 1\<rparr>,
                      agents := modify (agents a1) (k_agent k)
                        (\<lambda>d. d\<lparr>agent_resolutionViolations := agent_resolutionViolations d + 1\<rparr>),
                      categories := modify (categories a1) (k_category k)
                        (\<lambda>d. d\<lparr>category_resolutionViolations := category_resolutionViolations d + 1\<rparr>),
                      priorityAnalysis := modify (priorityAnalysis a1) (k_priority k)
                        (\<lambda>d. d\<lparr>priority_resolutionViolations := priority_resolutionViolations d + 1\<rparr>)\<rparr>)
            | Compliant \<Rightarrow>
                a1\<lparr>resolutionSLA := (resolutionSLA a1)\<lparr>compliance := compliance (resolutionSLA a1) + 1\<rparr>\<rparr>
            | Neither \<Rightarrow> a1)
      else a)"

text \<open>The statements from "Initialize tracking objects" to "Update counts".\<close>

definition count_ticket :: "ticket_keys \<Rightarrow> analysis \<Rightarrow> analysis" where
  "count_ticket k a =
     a\<lparr>agents := modify (ensure (agents a) (k_agent k) new_agent) (k_agent k)
                   (\<lambda>d. d\<lparr>agent_total := agent_total d + 1\<rparr>),
       categories := modify (ensure (categories a) (k_category k) new_category) (k_category k)
                   (\<lambda>d. d\<lparr>category_total := category_total d + 1\<rparr>),
       priorityAnalysis := modify (ensure (priorityAnalysis a) (k_priority k) new_priority) (k_priority k)
                   (\<lambda>d. d\<lparr>priority_total := priority_total d + 1\<rparr>),
       timePatterns := modify (ensure (timePatterns a) (k_dateKey k) new_time_bucket) (k_dateKey k)
                   (\<lambda>b. b\<lparr>tb_total := tb_total b + 1\<rparr>),
       trends := (trends a)
         \<lparr>daily := modify (ensure (daily (trends a)) (k_dayOfWeek k) new_time_bucket) (k_dayOfWeek k)
                   (\<lambda>b. b\<lparr>tb_total := tb_total b + 1\<rparr>),
          monthly := modify (ensure (monthly (trends a)) (k_monthKey k) new_time_bucket) (k_monthKey k)
                   (\<lambda>b. b\<lparr>tb_total := tb_total b + 1\<rparr>)\<rparr>\<rparr>"

text \<open>
  The agent-category and agent-priority tallies. Under an agent name that the dictionary
  only inherits, \<open>analysis.agents[agent].categories\<close> is undefined and reading a property
  of it throws.
\<close>

definition track_combinations :: "ticket_keys \<Rightarrow> analysis \<Rightarrow> js_error + analysis" where
  "track_combinations k a =
     (if has_own (agents a) (k_agent k) then
        Inr (a\<lparr>agents := modify (agents a) (k_agent k)
                  (\<lambda>d. d\<lparr>agent_categories := count_bump (agent_categories d) (k_category k),
                         agent_priorities := count_bump (agent_priorities d) (k_priority k)\<rparr>)\<rparr>)
      else Inl TypeError)"

text \<open>
  The body of \<open>data.forEach\<close>. \<open>createdDate.substring\<close> exists only when the created
  date is a string.
\<close>

definition process_ticket :: "host \<Rightarrow> analysis \<Rightarrow> nat \<Rightarrow> row \<Rightarrow> js_error + analysis" where
  "process_ticket h a index ticket =
     (let agent = first_truthy [get_prop ticket ''Agent'', get_prop ticket ''Resolved by'',
                                get_prop ticket ''Assignee''] (JStr ''Unknown'');
          category = first_truthy [get_prop ticket ''Category'', get_prop ticket ''Sub-Category'',
                                   get_prop ticket ''Type''] (JStr ''Unknown'');
          priority = first_truthy [get_prop ticket ''Priority'', get_prop ticket ''Urgency'']
                                  (JStr ''Medium'');
          createdDate = first_truthy [get_prop ticket ''Created Date'', get_prop ticket ''Date Created'',
                                      get_prop ticket ''Created''] (JStr (now h index))
      in case createdDate of
           JStr created \<Rightarrow>
             (let k = \<lparr>k_agent = to_string h agent, k_category = to_string h category,
                       k_priority = to_string h priority, k_dateKey = substring0 created 10,
                       k_dayOfWeek = getDay h created, k_monthKey = substring0 created 7\<rparr>
              in case track_combinations k (count_ticket k a) of
                   Inl e \<Rightarrow> Inl e
                 | Inr a1 \<Rightarrow> Inr (resolution h k ticket (first_response h k ticket a1)))
         | _ \<Rightarrow> Inl TypeError)"

fun process_tickets :: "host \<Rightarrow> analysis \<Rightarrow> nat \<Rightarrow> row list \<Rightarrow> js_error + analysis" where
  "process_tickets h a index [] = Inr a"
| "process_tickets h a index (ticket # rest) =
     (case process_ticket h a index ticket of
        Inl e \<Rightarrow> Inl e
      | Inr a' \<Rightarrow> process_tickets h a' (index + 1) rest)"

subsection \<open>After the loop\<close>

text \<open>
  \<open>(a / b) * 100\<close> as the code writes it: the quotient is rounded to a double, and so is
  its product with 100.
\<close>

definition percent_of :: "rat \<Rightarrow> rat \<Rightarrow> rat" where
  "percent_of a b = dbl (dbl (a / b) * 100)"

text \<open>
  \<open>((total - v) / total) * 100\<close>. The counters are integers far below \<open>2 ^ 53\<close> (an
  array has fewer than \<open>2 ^ 32\<close> elements), so they and their difference are doubles.
\<close>

definition rate_of :: "nat \<Rightarrow> nat \<Rightarrow> rat" where
  "rate_of t v = percent_of (of_nat t - of_nat v) (of_nat t)"

definition finish_bucket :: "sla_bucket \<Rightarrow> sla_bucket" where
  "finish_bucket b =
     (if total b > 0 then
        b\<lparr>compliancePercentage := toFixed1 (rate_of (total b) (violations b)),
          violationPercentage := toFixed1 (percent_of (of_nat (violations b)) (of_nat (total b)))\<rparr>
      else b)"

text \<open>\<open>cs[a] > cs[b]\<close> on two keys of a dictionary of counts.\<close>

definition count_greater :: "(string \<times> nat option) list \<Rightarrow> string \<Rightarrow> string \<Rightarrow> bool" where
  "count_greater cs a b =
     (case (map_of cs a, map_of cs b) of
        (Some (Some x), Some (Some y)) \<Rightarrow> x > y
      | _ \<Rightarrow> False)"

definition topCategory :: "(string \<times> nat option) list \<Rightarrow> string" where
  "topCategory cs =
     foldl (\<lambda>a b. if count_greater cs a b then a else b)
       (case map fst cs of [] \<Rightarrow> ''Unknown'' | k # ks \<Rightarrow> if k = [] then ''Unknown'' else k)
       (map fst cs)"

definition finish_agent :: "agent_stats \<Rightarrow> agent_stats" where
  "finish_agent d =
     (let tv = agent_responseViolations d + agent_resolutionViolations d in
      d\<lparr>agent_totalViolations := tv,
        agent_complianceRate :=
          (if agent_total d > 0 then JStr (toFixed1 (rate_of (agent_total d) tv)) else JNum 100),
        agent_topCategory := Some (topCategory (agent_categories d))\<rparr>)"

definition finish_category :: "category_stats \<Rightarrow> category_stats" where
  "finish_category d =
     (let totalViolations = category_responseViolations d + category_resolutionViolations d in
      d\<lparr>category_complianceRate :=
          Some (if category_total d > 0
                then JStr (toFixed1 (rate_of (category_total d) totalViolations)) else JNum 100)\<rparr>)"

definition finish_priority :: "priority_stats \<Rightarrow> priority_stats" where
  "finish_priority d =
     (let totalViolations = priority_responseViolations d + priority_resolutionViolations d in
      d\<lparr>priority_complianceRate :=
          (if priority_total d > 0
           then JStr (toFixed1 (rate_of (priority_total d) totalViolations)) else JNum 100)\<rparr>)"

definition finish :: "analysis \<Rightarrow> analysis" where
  "finish a =
     a\<lparr>firstResponseSLA := finish_bucket (firstResponseSLA a),
       resolutionSLA := finish_bucket (resolutionSLA a),
       agents := map (\<lambda>(k, d). (k, finish_agent d)) (agents a),
       categories := map (\<lambda>(k, d). (k, finish_category d)) (categories a),
       priorityAnalysis := map (\<lambda>(k, d). (k, finish_priority d)) (priorityAnalysis a)\<rparr>"

subsection \<open>What a ticket says about each SLA\<close>

text \<open>
  The class of the status that the loop finds for a ticket, \<open>None\<close> when no candidate
  column holds a truthy value.
\<close>

definition first_response_class :: "host \<Rightarrow> row \<Rightarrow> status_class option" where
  "first_response_class h ticket =
     (if truthy (find_status firstResponseColumns ticket)
      then Some (classify (toLowerCase (to_string h (find_status firstResponseColumns ticket))))
      else None)"

definition resolution_class :: "host \<Rightarrow> row \<Rightarrow> status_class option" where
  "resolution_class h ticket =
     (if truthy (find_status resolutionColumns ticket)
      then Some (classify (toLowerCase (to_string h (find_status resolutionColumns ticket))))
      else None)"

text \<open>How many elements of a list satisfy a test.\<close>

definition count_where :: "('a \<Rightarrow> bool) \<Rightarrow> 'a list \<Rightarrow> nat" where
  "count_where P xs = length (filter P xs)"

text \<open>
  A host for the examples: a fixed clock, every date a Monday, whole numbers printed in
  decimal.
\<close>

definition example_host :: host where
  "example_host =
     \<lparr>now = (\<lambda>i. ''2024-05-06T10:00:00.000Z''),
      getDay = (\<lambda>s. ''1''),
      number_toString = (\<lambda>n. (if n < 0 then ''-'' else []) @ show_nat (nat \<lfloor>\<bar>n\<bar>\<rfloor>))\<rparr>"

text \<open>A bucket as it stands after the loop, counted from the classes of the tickets.\<close>

definition counted_bucket :: "(row \<Rightarrow> status_class option) \<Rightarrow> row list \<Rightarrow> sla_bucket" where
  "counted_bucket f ts =
     \<lparr>violations = count_where (\<lambda>t. f t = Some Violation) ts,
      compliance = count_where (\<lambda>t. f t = Some Compliant) ts,
      total = count_where (\<lambda>t. f t \<noteq> None) ts,
      compliancePercentage = ''0'', violationPercentage = ''0''\<rparr>"

text \<open>Whether the analyzer returned an analysis (not null, and nothing thrown).\<close>

definition returns_analysis :: "js_error + 'a option \<Rightarrow> bool" where
  "returns_analysis x = (case x of Inr (Some r) \<Rightarrow> True | _ \<Rightarrow> False)"

text \<open>
  The tickets on which the body of the loop throws: the created date is truthy but not a
  string, or the agent's name is one that every object inherits.
\<close>

definition ticket_throws :: "host \<Rightarrow> nat \<Rightarrow> row \<Rightarrow> bool" where
  "ticket_throws h index ticket =
     ((case first_truthy [get_prop ticket ''Created Date'', get_prop ticket ''Date Created'',
                          get_prop ticket ''Created''] (JStr (now h index)) of
         JStr created \<Rightarrow> False
       | _ \<Rightarrow> True)
      \<or> to_string h (first_truthy [get_prop ticket ''Agent'', get_prop ticket ''Resolved by'',
                                   get_prop ticket ''Assignee''] (JStr ''Unknown''))
          \<in> set inherited_keys)"

text \<open>No own key of the agents dictionary is an inherited name.\<close>

definition clean_agents :: "analysis \<Rightarrow> bool" where
  "clean_agents a = list_all (\<lambda>k. k \<notin> set inherited_keys) (map fst (agents a))"

subsection \<open>generatePerformanceInsights\<close>

record agent_performance =
  perf_agent :: string
  perf_complianceRate :: jsnum
  perf_totalTickets :: nat
  perf_violations :: nat

record category_performance =
  cperf_category :: string
  cperf_total :: nat
  cperf_complianceRate :: jsnum
  cperf_violations :: nat

record daily_pattern =
  dp_day :: "string option"
  dp_total :: nat
  dp_violations :: nat
  dp_violationRate :: jsval

record recommendation =
  area :: string
  recommendation :: string
  impact :: string
  effort :: string

record insights =
  topPerformers :: "agent_performance list"
  improvementAreas :: "agent_performance list"
  categoryInsights :: "category_performance list"
  dailyPatterns :: "daily_pattern list"
  recommendations :: "recommendation list"

text \<open>\<open>xs.slice(0, 3)\<close>\<close>

definition slice3 :: "'a list \<Rightarrow> 'a list" where
  "slice3 xs = take 3 xs"

text \<open>The entry that the \<open>map\<close> over \<open>Object.entries(analysis.agents)\<close> builds.\<close>

definition agent_entry :: "string \<times> agent_stats \<Rightarrow> agent_performance" where
  "agent_entry e =
     (case e of (agent, d) \<Rightarrow>
        \<lparr>perf_agent = agent, perf_complianceRate = parseFloat (agent_complianceRate d),
         perf_totalTickets = agent_total d, perf_violations = agent_totalViolations d\<rparr>)"

definition agentPerformance :: "analysis \<Rightarrow> agent_performance list" where
  "agentPerformance a =
     sort_by (\<lambda>x y. js_minus (perf_complianceRate y) (perf_complianceRate x))
       (map agent_entry (agents a))"

definition categoryPerformance :: "analysis \<Rightarrow> category_performance list" where
  "categoryPerformance a =
     sort_by (\<lambda>x y. js_minus (cperf_complianceRate x) (cperf_complianceRate y))
       (map (\<lambda>(category, d).
               \<lparr>cperf_category = category, cperf_total = category_total d,
                cperf_complianceRate =
                  (case category_complianceRate d of None \<Rightarrow> NaN | Some v \<Rightarrow> parseFloat v),
                cperf_violations = category_responseViolations d + category_resolutionViolations d\<rparr>)
            (categories a))"

definition weekday_names :: "string list" where
  "weekday_names =
     [''Sunday'', ''Monday'', ''Tuesday'', ''Wednesday'', ''Thursday'', ''Friday'', ''Saturday'']"

text \<open>\<open>names[day]\<close> for a property key \<open>day\<close>.\<close>

definition weekday_name :: "string \<Rightarrow> string option" where
  "weekday_name day =
     (if is_array_index day \<and> dec_val day < length weekday_names
      then Some (weekday_names ! dec_val day) else None)"

definition dailyPatterns_of :: "analysis \<Rightarrow> daily_pattern list" where
  "dailyPatterns_of a =
     sort_by (\<lambda>x y. js_minus (parseFloat (dp_violationRate y)) (parseFloat (dp_violationRate x)))
       (map (\<lambda>(day, b).
               \<lparr>dp_day = weekday_name day, dp_total = tb_total b, dp_violations = tb_violations b,
                dp_violationRate =
                  (if tb_total b > 0
                   then JStr (toFixed1 (percent_of (of_nat (tb_violations b)) (of_nat (tb_total b))))
                   else JNum 0)\<rparr>)
            (daily (trends a)))"

text \<open>\<open>Math.max(...xs)\<close> and \<open>Math.min(...xs)\<close>\<close>

definition js_max :: "jsnum \<Rightarrow> jsnum \<Rightarrow> jsnum" where
  "js_max a b = (if a = NaN \<or> b = NaN then NaN else if js_less a b then b else a)"

definition js_min :: "jsnum \<Rightarrow> jsnum \<Rightarrow> jsnum" where
  "js_min a b = (if a = NaN \<or> b = NaN then NaN else if js_less b a then b else a)"

definition Math_max :: "jsnum list \<Rightarrow> jsnum" where
  "Math_max xs = foldl js_max NegInf xs"

definition Math_min :: "jsnum list \<Rightarrow> jsnum" where
  "Math_min xs = foldl js_min PosInf xs"

definition recommendations_of :: "analysis \<Rightarrow> agent_performance list \<Rightarrow> recommendation list" where
  "recommendations_of a perf =
     (if js_less (parseFloat_string (compliancePercentage (firstResponseSLA a))) (Fin 95)
      then [\<lparr>area = ''First Response Time'',
              recommendation = ''Implement automated ticket routing and priority alerts'',
              impact = ''high'', effort = ''medium''\<rparr>]
      else [])
     @ (if js_less (parseFloat_string (compliancePercentage (resolutionSLA a))) (Fin 90)
        then [\<lparr>area = ''Resolution Time'',
                recommendation = ''Create knowledge base and escalation procedures'',
                impact = ''high'', effort = ''medium''\<rparr>]
        else [])
     @ (if length (agents a) > 1
           \<and> js_greater (rounded (js_minus (Math_max (map perf_complianceRate perf))
                                           (Math_min (map perf_complianceRate perf)))) (Fin 20)
        then [\<lparr>area = ''Team Performance'',
                recommendation = ''Implement peer mentoring and standardized training'',
                impact = ''medium'', effort = ''low''\<rparr>]
        else [])"

definition generatePerformanceInsights :: "analysis \<Rightarrow> insights" where
  "generatePerformanceInsights a =
     \<lparr>topPerformers = slice3 (agentPerformance a),
      improvementAreas =
        slice3 (filter (\<lambda>agent. js_less (perf_complianceRate agent) (Fin 90)) (agentPerformance a)),
      categoryInsights = categoryPerformance a,
      dailyPatterns = dailyPatterns_of a,
      recommendations = recommendations_of a (agentPerformance a)\<rparr>"

subsection \<open>analyzeSLAPerformance\<close>

record sla_analysis = analysis +
  insights :: insights

text \<open>
  The argument is an array of tickets, or a value for which \<open>!data\<close> holds (\<open>None\<close>).
  The result is an exception, null (\<open>None\<close>) or the analysis with its insights.
\<close>

definition analyzeSLAPerformance :: "host \<Rightarrow> row list option \<Rightarrow> js_error + sla_analysis option" where
  "analyzeSLAPerformance h arg =
     (case arg of
        None \<Rightarrow> Inr None
      | Some tickets \<Rightarrow>
          if length tickets = 0 then Inr None
          else
            (case process_tickets h (initial_analysis (length tickets)) 0 tickets of
               Inl e \<Rightarrow> Inl e
             | Inr a \<Rightarrow>
                 Inr (Some (analysis.extend (finish a)
                        (sla_analysis.fields (generatePerformanceInsights (finish a)))))))"

text \<open>
  The fifth scenario of the specification: three agents with compliance rates of 92, 80 and
  100 percent, in this order of first appearance.
\<close>

definition scenario_5 :: analysis where
  "scenario_5 =
     (initial_analysis 31)
       \<lparr>agents :=
          [(''B'', new_agent\<lparr>agent_total := 25, agent_totalViolations := 2, agent_complianceRate := JStr ''92.0''\<rparr>),
           (''C'', new_agent\<lparr>agent_total := 5, agent_totalViolations := 1, agent_complianceRate := JStr ''80.0''\<rparr>),
           (''A'', new_agent\<lparr>agent_total := 1, agent_totalViolations := 0, agent_complianceRate := JStr ''100.0''\<rparr>)]\<rparr>"

section \<open>The first version of the analyzer\<close>

text \<open>
  The repository holds two server files. One has the analyzer above; the other has the
  version it replaced, which keeps no dates, priorities or insights, reads four status
  columns with \<open>||\<close>, knows fewer keywords and computes the compliance percentage from the
  \<open>compliance\<close> counter. Its bucket starts without a \<open>violationPercentage\<close> property.
\<close>

record basic_bucket =
  b_violations :: nat
  b_compliance :: nat
  b_total :: nat
  b_compliancePercentage :: string
  b_violationPercentage :: "string option"

record tally =
  t_total :: nat
  t_responseViolations :: nat
  t_resolutionViolations :: nat

record basic_analysis =
  b_totalTickets :: nat
  b_firstResponseSLA :: basic_bucket
  b_resolutionSLA :: basic_bucket
  b_agents :: "(string \<times> tally) list"
  b_categories :: "(string \<times> tally) list"

definition basic_empty_bucket :: basic_bucket where
  "basic_empty_bucket =
     \<lparr>b_violations = 0, b_compliance = 0, b_total = 0,
      b_compliancePercentage = ''0'', b_violationPercentage = None\<rparr>"

definition new_tally :: tally where
  "new_tally = \<lparr>t_total = 0, t_responseViolations = 0, t_resolutionViolations = 0\<rparr>"

definition basic_classify :: "string \<Rightarrow> status_class" where
  "basic_classify statusLower =
     (if str_includes statusLower ''violated'' \<or> str_includes statusLower ''breach''
         \<or> str_includes statusLower ''missed'' \<or> str_includes statusLower ''overdue''
      then Violation
      else if str_includes statusLower ''within'' \<or> str_includes statusLower ''met''
         \<or> str_includes statusLower ''compliant''
      then Compliant
      else Neither)"

definition basic_first_response :: "host \<Rightarrow> string \<Rightarrow> string \<Rightarrow> row \<Rightarrow> basic_analysis \<Rightarrow> basic_analysis" where
  "basic_first_response h agent category ticket a =
     (let firstResponseStatus =
            first_truthy [get_prop ticket ''First Response Status'', get_prop ticket ''First Response SLA'',
                          get_prop ticket ''Response Status''] (get_prop ticket ''first_response_status'')
      in if truthy firstResponseStatus then
           (let a1 = a\<lparr>b_firstResponseSLA := (b_firstResponseSLA a)\<lparr>b_total := b_total (b_firstResponseSLA a) + 1\<rparr>\<rparr>;
                statusLower = toLowerCase (to_string h firstResponseStatus)
            in case basic_classify statusLower of
                 Violation \<Rightarrow>
                   a1\<lparr>b_firstResponseSLA := (b_firstResponseSLA a1)\<lparr>b_violations := b_violations (b_firstResponseSLA a1) + 1\<rparr>,
                      b_agents := modify (b_agents a1) agent
                        (\<lambda>d. d\<lparr>t_responseViolations := t_responseViolations d + 1\<rparr>),
                      b_categories := modify (b_categories a1) category
                        (\<lambda>d. d\<lparr>t_responseViolations := t_responseViolations d + 1\<rparr>)\<rparr>
               | Compliant \<Rightarrow>
                   a1\<lparr>b_firstResponseSLA := (b_firstResponseSLA a1)\<lparr>b_compliance := b_compliance (b_firstResponseSLA a1) + 1\<rparr>\<rparr>
               | Neither \<Rightarrow> a1)
         else a)"

definition basic_resolution :: "host \<Rightarrow> string \<Rightarrow> string \<Rightarrow> row \<Rightarrow> basic_analysis \<Rightarrow> basic_analysis" where
  "basic_resolution h agent category ticket a =
     (let resolutionStatus =
            first_truthy [get_prop ticket ''Resolution Status'', get_prop ticket ''Resolution SLA'',
                          get_prop ticket ''Resolve Status''] (get_prop ticket ''resolution_status'')
      in if truthy resolutionStatus then
           (let a1 = a\<lparr>b_resolutionSLA := (b_resolutionSLA a)\<lparr>b_total := b_total (b_resolutionSLA a) + 1\<rparr>\<rparr>;
                statusLower = toLowerCase (to_string h resolutionStatus)
            in case basic_classify statusLower of
                 Violation \<Rightarrow>
                   a1\<lparr>b_resolutionSLA := (b_resolutionSLA a1)\<lparr>b_violations := b_violations (b_resolutionSLA a1) + 1\<rparr>,
                      b_agents := modify (b_agents a1) agent
                        (\<lambda>d. d\<lparr>t_resolutionViolations := t_resolutionViolations d + 1\<rparr>),
                      b_categories := modify (b_categories a1) category
                        (\<lambda>d. d\<lparr>t_resolutionViolations := t_resolutionViolations d + 1\<rparr>)\<rparr>
               | Compliant \<Rightarrow>
                   a1\<lparr>b_resolutionSLA := (b_resolutionSLA a1)\<lparr>b_compliance := b_compliance (b_resolutionSLA a1) + 1\<rparr>\<rparr>
               | Neither \<Rightarrow> a1)
         else a)"

text \<open>
  The body of \<open>data.forEach\<close>. No statement of it can throw: under an inherited agent
  or category name the counters are written to a member of Object.prototype.
\<close>

definition basic_process_ticket :: "host \<Rightarrow> basic_analysis \<Rightarrow> row \<Rightarrow> basic_analysis" where
  "basic_process_ticket h a ticket =
     (let agent = to_string h (first_truthy [get_prop ticket ''Agent'', get_prop ticket ''Resolved by'',
                                             get_prop ticket ''Assignee''] (JStr ''Unknown''));
          category = to_string h (first_truthy [get_prop ticket ''Category'',
                                                get_prop ticket ''Sub-Category''] (JStr ''Unknown''));
          a1 = a\<lparr>b_agents := modify (ensure (b_agents a) agent new_tally) agent
                               (\<lambda>d. d\<lparr>t_total := t_total d + 1\<rparr>),
                 b_categories := modify (ensure (b_categories a) category new_tally) category
                               (\<lambda>d. d\<lparr>t_total := t_total d + 1\<rparr>)\<rparr>
      in basic_resolution h agent category ticket (basic_first_response h agent category ticket a1))"

definition basic_finish_bucket :: "basic_bucket \<Rightarrow> basic_bucket" where
  "basic_finish_bucket b =
     (if b_total b > 0 then
        b\<lparr>b_compliancePercentage := toFixed1 (percent_of (of_nat (b_compliance b)) (of_nat (b_total b))),
          b_violationPercentage := Some (toFixed1 (percent_of (of_nat (b_violations b)) (of_nat (b_total b))))\<rparr>
      else b)"

definition analyzeSLAPerformance_basic :: "host \<Rightarrow> row list option \<Rightarrow> basic_analysis option" where
  "analyzeSLAPerformance_basic h arg =
     (case arg of
        None \<Rightarrow> None
      | Some tickets \<Rightarrow>
          if length tickets = 0 then None
          else
            (let a = foldl (basic_process_ticket h)
                       \<lparr>b_totalTickets = length tickets, b_firstResponseSLA = basic_empty_bucket,
                        b_resolutionSLA = basic_empty_bucket, b_agents = [], b_categories = []\<rparr>
                       tickets
             in Some (a\<lparr>b_firstResponseSLA := basic_finish_bucket (b_firstResponseSLA a),
                        b_resolutionSLA := basic_finish_bucket (b_resolutionSLA a)\<rparr>)))"

definition basic_first_response_class :: "host \<Rightarrow> row \<Rightarrow> status_class option" where
  "basic_first_response_class h ticket =
     (let s = first_truthy [get_prop ticket ''First Response Status'', get_prop ticket ''First Response SLA'',
                            get_prop ticket ''Response Status''] (get_prop ticket ''first_response_status'')
      in if truthy s then Some (basic_classify (toLowerCase (to_string h s))) else None)"

definition basic_resolution_class :: "host \<Rightarrow> row \<Rightarrow> status_class option" where
  "basic_resolution_class h ticket =
     (let s = first_truthy [get_prop ticket ''Resolution Status'', get_prop ticket ''Resolution SLA'',
                            get_prop ticket ''Resolve Status''] (get_prop ticket ''resolution_status'')
      in if truthy s then Some (basic_classify (toLowerCase (to_string h s))) else None)"

text \<open>The two tickets of the specification's first scenario, and a ticket with two breaches.\<close>

definition scenario_1 :: "row list" where
  "scenario_1 =
     [[(''Agent'', JStr ''A''), (''First Response Status'', JStr ''Violated'')],
      [(''Agent'', JStr ''A''), (''First Response Status'', JStr ''Met'')]]"

definition double_breach :: "row list" where
  "double_breach =
     [[(''Agent'', JStr ''A''), (''First Response Status'', JStr ''Violated''),
       (''Resolution Status'', JStr ''Breached'')]]"

section \<open>The data structure inspector\<close>

text \<open>
  \<open>analyzeDataStructure\<close> is declared in both server files; the loop that infers the
  column types is the same in each declaration. The descriptor below carries the fields
  that all of them return; the per-column null and uniqueness statistics of the last
  declaration are not carried.
\<close>

text \<open>\<open>[...new Set(xs)]\<close>: the distinct elements in the order of their first occurrence.\<close>

definition Set_values :: "'a list \<Rightarrow> 'a list" where
  "Set_values xs = rev (remdups (rev xs))"

definition sampleValues :: "row list \<Rightarrow> string \<Rightarrow> jsval list" where
  "sampleValues rows col = filter (\<lambda>val. \<not> is_blank val) (map (\<lambda>r. get_prop r col) (take 100 rows))"

definition columnType :: "row list \<Rightarrow> string \<Rightarrow> string" where
  "columnType rows col =
     (let types = Set_values (map typeof (sampleValues rows col))
      in if length types = 1 then hd types else ''mixed'')"

definition name_matches :: "string list \<Rightarrow> string \<Rightarrow> bool" where
  "name_matches keywords col = list_ex (\<lambda>kw. str_includes (toLowerCase col) kw) keywords"

record specialColumns =
  dateColumns :: "string list"
  statusColumns :: "string list"
  userColumns :: "string list"
  idColumns :: "string list"

record descriptor =
  totalRows :: nat
  columns :: "string list"
  columnTypes :: "(string \<times> string) list"
  sample :: "row list"
  special :: specialColumns
  hasDateColumns :: bool
  hasStatusColumns :: bool
  hasUserColumns :: bool

definition analyzeDataStructure :: "row list option \<Rightarrow> descriptor option" where
  "analyzeDataStructure arg =
     (case arg of
        None \<Rightarrow> None
      | Some rows \<Rightarrow>
          (case rows of
             [] \<Rightarrow> None
           | first # rest \<Rightarrow>
               (let cols = Object_keys first;
                    sp = \<lparr>dateColumns = filter (name_matches [''date'', ''time'', ''created'', ''updated'', ''resolved'']) cols,
                          statusColumns = filter (name_matches [''status'', ''state'', ''priority'', ''sla'']) cols,
                          userColumns = filter (name_matches [''user'', ''agent'', ''assignee'', ''name'', ''resolved by'']) cols,
                          idColumns = filter (name_matches [''id'', ''number'', ''#'']) cols\<rparr>
                in Some \<lparr>totalRows = length rows,
                         columns = cols,
                         columnTypes = foldl (\<lambda>m col. obj_assign m col (columnType rows col)) [] cols,
                         sample = take 10 rows,
                         special = sp,
                         hasDateColumns = (length (dateColumns sp) > 0),
                         hasStatusColumns = (length (statusColumns sp) > 0),
                         hasUserColumns = (length (userColumns sp) > 0)\<rparr>)))"

text \<open>A ticket whose status has neither kind of keyword, and a ticket without a status.\<close>

definition pending_ticket :: "row list" where
  "pending_ticket = [[(''Agent'', JStr ''A''), (''First Response Status'', JStr ''Pending'')]]"

definition no_status_ticket :: "row list" where
  "no_status_ticket = [[(''Agent'', JStr ''A'')]]"


text \<open>Eighty tickets of one agent: 29 with a violated first response, 51 with a met one.\<close>

definition violated_ticket :: row where
  "violated_ticket = [(''Agent'', JStr ''A''), (''First Response Status'', JStr ''Violated'')]"

definition met_ticket :: row where
  "met_ticket = [(''Agent'', JStr ''A''), (''First Response Status'', JStr ''Met'')]"

definition tie_tickets :: "row list" where
  "tie_tickets = replicate 29 violated_ticket @ replicate 51 met_ticket"
section \<open>Properties of the rounding to doubles\<close>

text \<open>
  The rounding error of \<open>dbl\<close> is at most half the spacing of the doubles at its argument,
  small integers are doubles, and rounding does not cross an integer below \<open>2 ^ 53\<close>.
\<close>

lemma pow2_powi: "pow2 e = 2 powi e"
  by (simp add: pow2_def power_int_def power_inverse inverse_eq_divide power_one_over)

lemma pow2_pos: "0 < pow2 e"
  by (simp add: pow2_powi)

lemma pow2_add: "pow2 (a + b) = pow2 a * pow2 b"
  by (simp add: pow2_powi power_int_add)

lemma pow2_diff: "pow2 (a - b) = pow2 a / pow2 b"
  by (simp add: pow2_powi power_int_diff)

lemma pow2_nat: "pow2 (int n) = 2 ^ n"
  by (simp add: pow2_def)

lemma pow2_mono: "a \<le> b \<Longrightarrow> pow2 a \<le> pow2 b"
  by (simp add: pow2_powi power_int_increasing)

lemma pow2_strict_mono: "a < b \<Longrightarrow> pow2 a < pow2 b"
  by (simp add: pow2_powi power_int_strict_increasing)

lemma bit_length_bounds:
  "0 < n \<Longrightarrow> 2 ^ (bit_length n - 1) \<le> n \<and> n < 2 ^ bit_length n"
proof (induction n rule: bit_length.induct)
  case (1 n)
  show ?case
  proof (cases "n div 2 \<le> 0")
    case True
    with 1(2) have "n = 1" by linarith
    then show ?thesis by (simp add: bit_length.simps[of 1] bit_length.simps[of 0])
  next
    case False
    then have p: "0 < n div 2" by simp
    from 1(1)[OF _ p] 1(2)
    have ih: "2 ^ (bit_length (n div 2) - 1) \<le> n div 2" "n div 2 < 2 ^ bit_length (n div 2)"
      by auto
    have b: "bit_length n = Suc (bit_length (n div 2))"
      using 1(2) by (subst bit_length.simps) simp
    have pos: "0 < bit_length (n div 2)"
      using p by (subst bit_length.simps) simp
    then obtain k where k: "bit_length (n div 2) = Suc k" by (cases "bit_length (n div 2)") auto
    from ih(1) have "2 ^ Suc k \<le> 2 * (n div 2)" by (simp add: k)
    then have lo: "2 ^ Suc k \<le> n" by linarith
    from ih(2) have "n div 2 + 1 \<le> 2 ^ Suc k" by (simp add: k)
    then have "2 * (n div 2) + 2 \<le> 2 ^ Suc (Suc k)" by simp
    then have hi: "n < 2 ^ Suc (Suc k)" by linarith
    from lo hi show ?thesis by (simp add: b k)
  qed
qed

lemma binary_exponent_bounds:
  assumes "0 < a"
  shows "pow2 (binary_exponent a) \<le> a" and "a < pow2 (binary_exponent a + 1)"
proof -
  obtain p q where pq: "quotient_of a = (p, q)" by (cases "quotient_of a")
  then have q: "0 < q" and a: "a = of_int p / of_int q"
    by (auto dest: quotient_of_denom_pos quotient_of_div)
  from assms a q have p: "0 < p" by (simp add: zero_less_divide_iff)
  define bp bq where "bp = bit_length p" and "bq = bit_length q"
  define d where "d = int bp - int bq"
  from bit_length_bounds[OF p] have bp: "2 ^ (bp - 1) \<le> p" "p < 2 ^ bp" by (simp_all add: bp_def)
  from bit_length_bounds[OF q] have bq: "2 ^ (bq - 1) \<le> q" "q < 2 ^ bq" by (simp_all add: bq_def)
  have bp0: "0 < bp" using bp(2) p by (cases bp) auto
  have bq0: "0 < bq" using bq(2) q by (cases bq) auto
  have rp: "(2::rat) ^ (bp - 1) \<le> of_int p" "(of_int p :: rat) < 2 ^ bp"
    using bp by (metis of_int_le_iff of_int_numeral of_int_power, metis of_int_less_iff of_int_numeral of_int_power)
  have rq: "(2::rat) ^ (bq - 1) \<le> of_int q" "(of_int q :: rat) < 2 ^ bq"
    using bq by (metis of_int_le_iff of_int_numeral of_int_power, metis of_int_less_iff of_int_numeral of_int_power)
  have qpos: "(0::rat) < of_int q" using q by simp
  have lo: "pow2 (d - 1) \<le> a"
  proof -
    have "pow2 (d - 1) = pow2 (int (bp - 1)) / pow2 (int bq)"
      using bp0 by (simp add: d_def pow2_diff[symmetric] of_nat_diff algebra_simps)
    also have "\<dots> = 2 ^ (bp - 1) / 2 ^ bq" by (simp add: pow2_nat)
    also have "\<dots> \<le> of_int p / 2 ^ bq" using rp(1) by (simp add: divide_right_mono)
    also have "\<dots> \<le> of_int p / of_int q"
      using rq(2) qpos p by (intro divide_left_mono) (auto simp: less_imp_le)
    finally show ?thesis by (simp add: a)
  qed
  have hi: "a < pow2 (d + 1)"
  proof -
    have "a = of_int p / of_int q" by (rule a)
    also have "\<dots> < 2 ^ bp / of_int q" using rp(2) qpos by (simp add: divide_strict_right_mono)
    also have "\<dots> \<le> 2 ^ bp / 2 ^ (bq - 1)"
      using rq(1) qpos by (intro divide_left_mono) auto
    also have "\<dots> = pow2 (int bp) / pow2 (int (bq - 1))" by (simp add: pow2_nat)
    also have "\<dots> = pow2 (d + 1)"
      using bq0 by (simp add: d_def pow2_diff[symmetric] of_nat_diff algebra_simps)
    finally show ?thesis .
  qed
  have e: "binary_exponent a = (if pow2 d \<le> a then d else d - 1)"
    by (simp add: binary_exponent_def pq Let_def d_def bp_def bq_def)
  show "pow2 (binary_exponent a) \<le> a" using lo by (simp add: e)
  show "a < pow2 (binary_exponent a + 1)" using hi by (auto simp: e)
qed

lemma binary_exponent_zero: "binary_exponent 0 = - 2"
  by (simp add: binary_exponent_def bit_length.simps[of 0] bit_length.simps[of 1] pow2_def)

lemma binary_exponent_less:
  assumes "0 \<le> a" "a < pow2 k" "- 2 < k"
  shows "binary_exponent a < k"
proof (cases "a = 0")
  case True
  then show ?thesis using assms(3) by (simp add: binary_exponent_zero)
next
  case False
  then have "0 < a" using assms(1) by simp
  then have "pow2 (binary_exponent a) < pow2 k"
    using binary_exponent_bounds(1)[of a] assms(2) by simp
  then show ?thesis
    using pow2_mono[of k "binary_exponent a"] by (cases "binary_exponent a < k") auto
qed

lemma round_half_even_error: "\<bar>of_int (round_half_even m) - m\<bar> \<le> 1 / 2"
proof -
  have "of_int \<lfloor>m\<rfloor> \<le> m" "m < of_int \<lfloor>m\<rfloor> + 1" by linarith+
  then show ?thesis
    by (auto simp: round_half_even_def Let_def abs_le_iff)
qed

lemma round_half_even_int: "round_half_even (of_int k) = k"
  by (simp add: round_half_even_def Let_def)

lemma round_half_even_nonneg: "0 \<le> m \<Longrightarrow> 0 \<le> round_half_even m"
  by (auto simp: round_half_even_def Let_def)

text \<open>The rounding error is at most half a unit in the last place.\<close>

lemma dbl_error_ulp:
  "\<bar>dbl r - r\<bar> \<le> pow2 (max (binary_exponent \<bar>r\<bar>) (- 1022) - 53)"
proof (cases "r = 0")
  case True
  then show ?thesis using pow2_pos by (simp add: dbl_def less_imp_le)
next
  case False
  define ulp where "ulp = pow2 (max (binary_exponent \<bar>r\<bar>) (- 1022) - 52)"
  define k where "k = round_half_even (\<bar>r\<bar> / ulp)"
  have up: "0 < ulp" by (simp add: ulp_def pow2_pos)
  have d: "dbl r = sgn r * of_int k * ulp"
    using False by (simp add: dbl_def Let_def ulp_def k_def)
  have s: "\<bar>sgn r\<bar> = 1" using False by (simp add: abs_sgn_eq)
  have "sgn r * (of_int k * ulp - \<bar>r\<bar>) = dbl r - r"
    by (simp add: d right_diff_distrib sgn_mult_abs mult.assoc)
  then have "dbl r - r = sgn r * (of_int k * ulp - \<bar>r\<bar>)" by simp
  then have "\<bar>dbl r - r\<bar> = \<bar>sgn r\<bar> * \<bar>of_int k * ulp - \<bar>r\<bar>\<bar>"
    by (simp only: abs_mult)
  then have "\<bar>dbl r - r\<bar> = \<bar>of_int k * ulp - \<bar>r\<bar>\<bar>"
    by (simp only: s mult_1)
  also have "of_int k * ulp - \<bar>r\<bar> = (of_int k - \<bar>r\<bar> / ulp) * ulp"
    using up by (simp add: algebra_simps)
  also have "\<bar>\<dots>\<bar> = \<bar>of_int k - \<bar>r\<bar> / ulp\<bar> * ulp"
    using up by (simp add: abs_mult)
  also have "\<dots> \<le> (1 / 2) * ulp"
    using round_half_even_error[of "\<bar>r\<bar> / ulp"] up unfolding k_def
    by (intro mult_right_mono) auto
  also have "\<dots> = pow2 (max (binary_exponent \<bar>r\<bar>) (- 1022) - 53)"
  proof -
    have "pow2 (max (binary_exponent \<bar>r\<bar>) (- 1022) - 52) = pow2 (max (binary_exponent \<bar>r\<bar>) (- 1022) - 53) * pow2 1"
      by (simp add: pow2_add[symmetric])
    moreover have "pow2 1 = 2" by (simp add: pow2_def)
    ultimately show ?thesis by (simp add: ulp_def)
  qed
  finally show ?thesis .
qed

lemma dbl_error:
  "\<bar>dbl r - r\<bar> \<le> \<bar>r\<bar> / 2 ^ 53 + pow2 (- 1075)"
proof (cases "r = 0")
  case True
  then show ?thesis using pow2_pos[of "- 1075"] by (simp add: dbl_def)
next
  case False
  then have a: "0 < \<bar>r\<bar>" by simp
  let ?e = "binary_exponent \<bar>r\<bar>"
  have "pow2 (max ?e (- 1022) - 53) \<le> pow2 (?e - 53) + pow2 (- 1075)"
  proof (cases "- 1022 \<le> ?e")
    case True
    then have "max ?e (- 1022) = ?e" by simp
    then show ?thesis using pow2_pos[of "- 1075"] by simp
  next
    case False
    then have "max ?e (- 1022) - 53 = - 1075" by simp
    then show ?thesis using pow2_pos[of "?e - 53"] by simp
  qed
  moreover have "pow2 (?e - 53) \<le> \<bar>r\<bar> / 2 ^ 53"
  proof -
    have "pow2 53 = 2 ^ 53" by (simp add: pow2_def)
    then have "pow2 (?e - 53) = pow2 ?e / 2 ^ 53"
      by (simp only: pow2_diff)
    also have "\<dots> \<le> \<bar>r\<bar> / 2 ^ 53"
      using binary_exponent_bounds(1)[OF a] by (simp add: divide_right_mono)
    finally show ?thesis .
  qed
  ultimately show ?thesis using dbl_error_ulp[of r] by linarith
qed

lemma dbl_nonneg: "0 \<le> r \<Longrightarrow> 0 \<le> dbl r"
proof -
  assume r: "0 \<le> r"
  define ulp where "ulp = pow2 (max (binary_exponent \<bar>r\<bar>) (- 1022) - 52)"
  have up: "0 < ulp" by (simp add: ulp_def pow2_pos)
  have "0 \<le> \<bar>r\<bar> / ulp" using up by simp
  then have "0 \<le> round_half_even (\<bar>r\<bar> / ulp)" by (rule round_half_even_nonneg)
  then have "0 \<le> sgn r * of_int (round_half_even (\<bar>r\<bar> / ulp)) * ulp"
    using r up by (intro mult_nonneg_nonneg) (auto simp: sgn_if)
  then show ?thesis by (simp add: dbl_def Let_def ulp_def)
qed


lemma round_half_even_le: "m \<le> of_int k \<Longrightarrow> round_half_even m \<le> k"
proof -
  assume a: "m \<le> of_int k"
  have f: "of_int \<lfloor>m\<rfloor> \<le> m" "m < of_int \<lfloor>m\<rfloor> + 1" by linarith+
  have "\<lfloor>m\<rfloor> \<le> k" using a by (simp add: floor_le_iff)
  moreover have "\<lfloor>m\<rfloor> = k \<Longrightarrow> m - of_int \<lfloor>m\<rfloor> < 1 / 2" using a by simp
  ultimately show ?thesis
    by (cases "\<lfloor>m\<rfloor> = k") (auto simp: round_half_even_def Let_def)
qed

lemma round_half_even_ge: "of_int k \<le> m \<Longrightarrow> k \<le> round_half_even m"
proof -
  assume a: "of_int k \<le> m"
  then have "k \<le> \<lfloor>m\<rfloor>" by (simp add: le_floor_iff)
  then show ?thesis by (auto simp: round_half_even_def Let_def)
qed

lemma dbl_minus: "dbl (- r) = - dbl r"
  by (simp add: dbl_def Let_def)

lemma dbl_nonpos: "r \<le> 0 \<Longrightarrow> dbl r \<le> 0"
  using dbl_nonneg[of "- r"] by (simp add: dbl_minus)

text \<open>Below \<open>2 ^ 53\<close> every integer is a multiple of the spacing of the doubles.\<close>

lemma small_ulp:
  assumes "0 < r" "r < 2 ^ 53"
  obtains n where "pow2 (max (binary_exponent r) (- 1022) - 52) = 1 / 2 ^ n"
proof -
  have "pow2 (binary_exponent r) < pow2 53"
    using binary_exponent_bounds(1)[OF assms(1)] assms(2) by (simp add: pow2_def)
  then have "binary_exponent r < 53"
    using pow2_mono[of 53 "binary_exponent r"] by (cases "binary_exponent r < 53") auto
  then have "max (binary_exponent r) (- 1022) - 52 \<le> 0" by simp
  then have "pow2 (max (binary_exponent r) (- 1022) - 52)
             = 1 / 2 ^ nat (- (max (binary_exponent r) (- 1022) - 52))"
    by (cases "max (binary_exponent r) (- 1022) - 52 = 0") (simp_all add: pow2_def)
  then show ?thesis by (rule that)
qed

lemma dbl_le_integer:
  assumes "r \<le> of_int c" "0 \<le> c" "c < 2 ^ 53"
  shows "dbl r \<le> of_int c"
proof (cases "0 < r")
  case False
  then have "dbl r \<le> 0" by (simp add: dbl_nonpos)
  then show ?thesis using assms(2) by (simp add: order_trans[of _ 0])
next
  case True
  have "(of_int c :: rat) < 2 ^ 53"
    using assms(3) by (metis of_int_less_iff of_int_numeral of_int_power)
  then have "r < 2 ^ 53" using assms(1) by simp
  from small_ulp[OF True this] obtain n
    where u: "pow2 (max (binary_exponent r) (- 1022) - 52) = 1 / 2 ^ n" .
  have "r * 2 ^ n \<le> of_int c * 2 ^ n" using assms(1) by simp
  then have "r * 2 ^ n \<le> of_int (c * 2 ^ n)" by simp
  then have "round_half_even (r * 2 ^ n) \<le> c * 2 ^ n" by (rule round_half_even_le)
  then have "(of_int (round_half_even (r * 2 ^ n)) :: rat) \<le> of_int (c * 2 ^ n)"
    by (simp only: of_int_le_iff)
  then have "of_int (round_half_even (r * 2 ^ n)) / 2 ^ n \<le> (of_int c :: rat)"
    by (simp add: divide_le_eq)
  then show ?thesis using True by (simp add: dbl_def Let_def u)
qed

lemma dbl_ge_integer:
  assumes "of_int c \<le> r" "0 \<le> c" "r < 2 ^ 53"
  shows "of_int c \<le> dbl r"
proof (cases "0 < r")
  case False
  then have "c = 0" using assms(1,2) by (cases "c = 0") auto
  moreover have "r = 0" using False assms(1,2) by simp
  ultimately show ?thesis by (simp add: dbl_def)
next
  case True
  from small_ulp[OF True assms(3)] obtain n
    where u: "pow2 (max (binary_exponent r) (- 1022) - 52) = 1 / 2 ^ n" .
  have "of_int c * 2 ^ n \<le> r * 2 ^ n" using assms(1) by simp
  then have "of_int (c * 2 ^ n) \<le> r * 2 ^ n" by simp
  then have "c * 2 ^ n \<le> round_half_even (r * 2 ^ n)" by (rule round_half_even_ge)
  then have "(of_int (c * 2 ^ n) :: rat) \<le> of_int (round_half_even (r * 2 ^ n))"
    by (simp only: of_int_le_iff)
  then have "(of_int c :: rat) \<le> of_int (round_half_even (r * 2 ^ n)) / 2 ^ n"
    by (simp add: le_divide_eq)
  then show ?thesis using True by (simp add: dbl_def Let_def u)
qed

lemma dbl_of_int: "0 \<le> c \<Longrightarrow> c < 2 ^ 53 \<Longrightarrow> dbl (of_int c) = of_int c"
proof -
  assume c: "0 \<le> c" "c < 2 ^ 53"
  have "(of_int c :: rat) < 2 ^ 53"
    using c(2) by (metis of_int_less_iff of_int_numeral of_int_power)
  then show ?thesis
    using dbl_le_integer[of "of_int c" c] dbl_ge_integer[of c "of_int c"] c by simp
qed

lemma dbl_of_nat: "n < 2 ^ 53 \<Longrightarrow> dbl (of_nat n) = of_nat n"
  using dbl_of_int[of "int n"] by simp

lemma not_overflows_of_nat: "n < 2 ^ 53 \<Longrightarrow> \<not> overflows (of_nat n)"
proof -
  assume n: "n < 2 ^ 53"
  then have "(of_nat n :: rat) < of_nat (2 ^ 53)" by (simp only: of_nat_less_iff)
  then have "(of_nat n :: rat) < 2 ^ 53" by simp
  also have "(2::rat) ^ 53 \<le> 2 ^ 1024" by (rule power_increasing) simp_all
  finally have "(of_nat n :: rat) < pow2 1024" by (simp add: pow2_def)
  then have "binary_exponent (of_nat n) < 1024"
    by (intro binary_exponent_less) simp_all
  then show ?thesis using n by (simp add: overflows_def dbl_of_nat)
qed

text \<open>The percentage of a part of a whole lies between 0 and 100.\<close>

lemma percent_of_range:
  assumes "0 \<le> a" "a \<le> b" "0 < b"
  shows "0 \<le> percent_of a b" and "percent_of a b \<le> 100"
proof -
  have q: "0 \<le> a / b" "a / b \<le> 1" using assms by simp_all
  have d: "0 \<le> dbl (a / b)" "dbl (a / b) \<le> 1"
    using dbl_nonneg[OF q(1)] dbl_le_integer[of "a / b" 1] q(2) by simp_all
  then have "0 \<le> dbl (a / b) * 100" "dbl (a / b) * 100 \<le> of_int 100" by simp_all
  then show "0 \<le> percent_of a b" "percent_of a b \<le> 100"
    using dbl_nonneg[of "dbl (a / b) * 100"] dbl_le_integer[of "dbl (a / b) * 100" 100]
    by (simp_all add: percent_of_def)
qed

lemma pow2_tiny: "pow2 (- 1075) \<le> 1 / 10 ^ 20"
proof -
  have "(10::rat) ^ 20 \<le> 2 ^ 70" by simp
  also have "\<dots> \<le> 2 ^ 1075" by (rule power_increasing) simp_all
  finally have "1 / (2::rat) ^ 1075 \<le> 1 / 10 ^ 20"
    by (intro divide_left_mono) simp_all
  then show ?thesis by (simp add: pow2_def)
qed

text \<open>The two roundings move the percentage by less than \<open>10 ^ - 13\<close>.\<close>

lemma percent_of_error:
  assumes "0 \<le> a" "a \<le> b" "0 < b"
  shows "\<bar>percent_of a b - a / b * 100\<bar> \<le> 1 / 10 ^ 13"
proof -
  define q where "q = a / b"
  define d where "d = dbl q"
  define u :: rat where "u = 1 / 2 ^ 53"
  define t :: rat where "t = pow2 (- 1075)"
  have q: "0 \<le> q" "q \<le> 1" using assms by (simp_all add: q_def)
  have d: "0 \<le> d" "d \<le> 1"
    using dbl_nonneg[OF q(1)] dbl_le_integer[of q 1] q(2) by (simp_all add: d_def)
  have e1: "\<bar>d - q\<bar> \<le> q * u + t"
    using dbl_error[of q] q(1) by (simp add: d_def u_def t_def)
  have "q * u \<le> 1 * u" using q(2) by (intro mult_right_mono) (simp_all add: u_def)
  with e1 have b1: "\<bar>d - q\<bar> \<le> u + t" by simp
  have e2: "\<bar>dbl (d * 100) - d * 100\<bar> \<le> (d * 100) * u + t"
    using dbl_error[of "d * 100"] d(1) by (simp add: u_def t_def)
  have "(d * 100) * u \<le> 100 * u" using d(2) by (intro mult_right_mono) (simp_all add: u_def)
  with e2 have b2: "\<bar>dbl (d * 100) - d * 100\<bar> \<le> 100 * u + t" by simp
  have "\<bar>dbl (d * 100) - q * 100\<bar> \<le> 200 * u + 101 * t"
    using b1 b2 by linarith
  moreover have "200 * u \<le> 1 / (4 * 10 ^ 13)" by (simp add: u_def)
  moreover have "101 * t \<le> 1 / (4 * 10 ^ 13)"
  proof -
    have "101 * t \<le> 101 * (1 / 10 ^ 20)"
      unfolding t_def using pow2_tiny by (intro mult_left_mono) simp_all
    also have "\<dots> \<le> 1 / (4 * 10 ^ 13)" by simp
    finally show ?thesis .
  qed
  moreover have "(1::rat) / (4 * 10 ^ 13) + 1 / (4 * 10 ^ 13) \<le> 1 / 10 ^ 13" by simp
  ultimately have "\<bar>dbl (d * 100) - q * 100\<bar> \<le> 1 / 10 ^ 13" by linarith
  then show ?thesis by (simp add: percent_of_def d_def q_def)
qed

lemma tenths_near: "0 \<le> x \<Longrightarrow> \<bar>of_nat (tenths x) - x * 10\<bar> \<le> 1 / 2"
proof -
  assume x: "0 \<le> x"
  define f where "f = \<lfloor>x * 10 + 1 / 2\<rfloor>"
  have f: "of_int f \<le> x * 10 + 1 / 2" "x * 10 + 1 / 2 < of_int f + 1"
    unfolding f_def by linarith+
  have "0 \<le> f" unfolding f_def using x by simp
  then have e: "(of_nat (tenths x) :: rat) = of_int f"
    using x by (simp add: tenths_def f_def)
  have "\<bar>of_int f - x * 10\<bar> \<le> 1 / 2" using f by linarith
  then show ?thesis by (simp only: e)
qed

text \<open>
  With a whole below \<open>2 ^ 32\<close>, the rounding errors are too small to carry the written
  tenth away from the exact percentage by more than half a tenth.
\<close>

lemma tenths_percent_of:
  assumes "a \<le> b" "0 < b" "b < 2 ^ 32"
  shows "\<bar>of_nat (tenths (percent_of (of_nat a) (of_nat b))) / 10 - of_nat a / of_nat b * 100\<bar> \<le> (1 / 20 :: rat)"
proof (rule ccontr)
  define p where "p = percent_of (of_nat a) (of_nat b)"
  define n where "n = tenths p"
  define x :: rat where "x = of_nat a / of_nat b * 100"
  define D :: int where "D = \<bar>int n * int b - 1000 * int a\<bar>"
  assume "\<not> ?thesis"
  then have far: "1 / 20 < \<bar>of_nat n / 10 - x\<bar>" by (simp only: n_def p_def x_def not_le)
  have bpos: "(0::rat) < of_nat b" using assms(2) by simp
  have p0: "0 \<le> p"
    unfolding p_def using assms by (intro percent_of_range(1)) simp_all
  have pe: "\<bar>p - x\<bar> \<le> 1 / 10 ^ 13"
    unfolding p_def x_def using assms by (intro percent_of_error) simp_all
  have "\<bar>of_nat n - p * 10\<bar> \<le> 1 / 2" unfolding n_def by (rule tenths_near[OF p0])
  then have ne: "\<bar>of_nat n / 10 - p\<bar> \<le> 1 / 20" by linarith
  have dx: "of_nat n / 10 - x = of_int (int n * int b - 1000 * int a) / (10 * of_nat b)"
    using bpos by (simp add: x_def field_simps)
  have ax: "\<bar>of_nat n / 10 - x\<bar> = of_int D / (10 * of_nat b)"
    unfolding dx D_def using bpos by (simp add: abs_divide)
  with far have "1 / 20 < (of_int D :: rat) / (10 * of_nat b)" by simp
  then have "(of_nat b :: rat) < 2 * of_int D" using bpos by (simp add: field_simps)
  then have "(of_int (int b) :: rat) < of_int (2 * D)" by simp
  then have "int b < 2 * D" by (simp only: of_int_less_iff)
  then have "int b + 1 \<le> 2 * D" by simp
  then have "(of_int (int b + 1) :: rat) \<le> of_int (2 * D)" by (simp only: of_int_le_iff)
  then have "(of_nat b :: rat) + 1 \<le> 2 * of_int D" by simp
  then have "((of_nat b :: rat) + 1) / (20 * of_nat b) \<le> (2 * of_int D) / (20 * of_nat b)"
    using bpos by (intro divide_right_mono) simp_all
  moreover have "((of_nat b :: rat) + 1) / (20 * of_nat b) = 1 / 20 + 1 / (20 * of_nat b)"
    using bpos by (simp add: add_divide_distrib)
  moreover have "(2 * of_int D :: rat) / (20 * of_nat b) = of_int D / (10 * of_nat b)"
    by simp
  ultimately have lo: "1 / 20 + 1 / (20 * of_nat b) \<le> (of_int D :: rat) / (10 * of_nat b)"
    by simp
  have "\<bar>of_nat n / 10 - x\<bar> \<le> 1 / 20 + 1 / 10 ^ 13" using ne pe by linarith
  with lo ax have "1 / (20 * of_nat b) \<le> (1::rat) / 10 ^ 13" by linarith
  then have "(10::rat) ^ 13 \<le> 20 * of_nat b" using bpos by (simp add: field_simps)
  then have "(of_nat (10 ^ 13) :: rat) \<le> of_nat (20 * b)" by simp
  then have "10 ^ 13 \<le> 20 * b" by (simp only: of_nat_le_iff)
  then show False using assms(3) by simp
qed

section \<open>Properties of the cleaner and the normalizer\<close>

lemma convertValue_not_null: "\<not> is_blank v \<Longrightarrow> convertValue tz v \<noteq> JNull"
  by (cases v)
     (auto simp: convertValue_def is_blank_def Let_def parseInt10_def parseFloat_plain_def
                 number_value_def split: option.splits)

lemma normalized_null_iff: "normalized tz r col = JNull \<longleftrightarrow> is_blank (get_prop r col)"
  by (simp add: normalized_def convertValue_not_null)

lemma clean_col_stores:
  "clean_col tz r st col = (obj_assign (fst st) col (normalized tz r col),
                            snd st \<or> \<not> is_blank (get_prop r col))"
  by (simp add: clean_col_def normalized_def Let_def)

lemma clean_col_fold:
  "snd (foldl (clean_col tz r) st cols)
     \<longleftrightarrow> snd st \<or> list_ex (\<lambda>col. \<not> is_blank (get_prop r col)) cols"
  by (induction cols arbitrary: st) (auto simp: clean_col_stores)

lemma hasValidData_iff: "snd (clean_row tz cols r) \<longleftrightarrow> \<not> all_null tz cols r"
  by (simp add: clean_row_def clean_col_fold all_null_def normalized_null_iff
      list_all_iff list_ex_iff)

lemma clean_rows_length:
  "length (fst (clean_rows tz cols i rs (cd, ws)))
     = length cd + length (filter (\<lambda>r. \<not> all_null tz cols r) rs)"
proof (induction rs arbitrary: i cd ws)
  case Nil
  then show ?case by simp
next
  case (Cons r rs)
  obtain cr h where c: "clean_row tz cols r = (cr, h)"
    by (cases "clean_row tz cols r")
  with hasValidData_iff[of tz cols r] have "h \<longleftrightarrow> \<not> all_null tz cols r" by simp
  with c show ?case by (simp add: Cons.IH)
qed

lemma filter_split_length: "length (filter (\<lambda>r. \<not> P r) rs) = length rs - length (filter P rs)"
  using sum_length_filter_compl[of P rs] by simp

lemma all_null_no_columns: "all_null tz [] r"
  by (simp add: all_null_def)

text \<open>
  C7. For every array of rows, the number of retained rows is at most the number of input
  rows and equals it minus the number of rows in which every declared column (the keys of
  the first row) normalized to null. Whenever the first row declares a column, the returned
  \<open>cleanedCount\<close> and \<open>originalCount\<close> are exactly these two numbers.
\<close>

theorem cleanData_row_count:
  "length (data (cleanData tz (Rows rows)))
      = length rows - length (filter (all_null tz (declared_columns rows)) rows)
   \<and> length (data (cleanData tz (Rows rows))) \<le> length rows
   \<and> (declared_columns rows \<noteq> [] \<longrightarrow>
        cleanedCount (cleanData tz (Rows rows)) = Some (length (data (cleanData tz (Rows rows))))
        \<and> originalCount (cleanData tz (Rows rows)) = Some (length rows))"
proof (cases rows)
  case Nil
  then show ?thesis by (simp add: cleanData_def declared_columns_def)
next
  case (Cons first rest)
  show ?thesis
  proof (cases "Object_keys first = []")
    case True
    then show ?thesis using Cons
      by (simp add: cleanData_def declared_columns_def all_null_no_columns)
  next
    case False
    obtain cd ws where cr: "clean_rows tz (Object_keys first) 0 rows ([], []) = (cd, ws)"
      by (cases "clean_rows tz (Object_keys first) 0 rows ([], [])")
    from clean_rows_length[of tz "Object_keys first" 0 rows "[]" "[]"] cr
    have len: "length cd = length (filter (\<lambda>r. \<not> all_null tz (Object_keys first) r) rows)"
      by simp
    have d: "data (cleanData tz (Rows rows)) = cd"
      and cc: "cleanedCount (cleanData tz (Rows rows)) = Some (length cd)"
      and oc: "originalCount (cleanData tz (Rows rows)) = Some (length rows)"
      using Cons False cr by (simp_all add: cleanData_def Let_def)
    have dc: "declared_columns rows = Object_keys first"
      using Cons by (simp add: declared_columns_def)
    show ?thesis
      unfolding d cc oc dc len
      by (simp add: filter_split_length)
  qed
qed

theorem cleanData_row_count_witness:
  "declared_columns [[(''a'', JStr ''1'')], [(''a'', JStr '''')]] \<noteq> []
   \<and> cleanedCount (cleanData (\<lambda>m. []) (Rows [[(''a'', JStr ''1'')], [(''a'', JStr '''')]]))
       = Some (length (data (cleanData (\<lambda>m. []) (Rows [[(''a'', JStr ''1'')], [(''a'', JStr '''')]]))))
   \<and> originalCount (cleanData (\<lambda>m. []) (Rows [[(''a'', JStr ''1'')], [(''a'', JStr '''')]]))
       = Some (length [[(''a'', JStr ''1'')], [(''a'', JStr '''')]])"
proof -
  have h: "declared_columns [[(''a'', JStr ''1'')], [(''a'', JStr '''')]] \<noteq> []"
    by (simp add: declared_columns_def Object_keys_def)
  with cleanData_row_count [of "\<lambda>m. []" "[[(''a'', JStr ''1'')], [(''a'', JStr '''')]]"]
  show ?thesis by blast
qed

text \<open>
  C4. On an empty array and on an argument that is not an array, \<open>cleanData\<close> returns
  no data, the single error "No data provided" and no warnings; the object returned on this
  path carries neither \<open>originalCount\<close> nor \<open>cleanedCount\<close>.
\<close>

theorem cleanData_no_data:
  "cleanData tz (Rows []) =
     \<lparr>data = [], errors = [''No data provided''], warnings = [],
      originalCount = None, cleanedCount = None\<rparr>
   \<and> cleanData tz (NotArray v) =
     \<lparr>data = [], errors = [''No data provided''], warnings = [],
      originalCount = None, cleanedCount = None\<rparr>"
  by (simp add: cleanData_def)

lemma number_value_exact: "n < 2 ^ 53 \<Longrightarrow> number_value (of_nat n) = JNum (of_nat n)"
  by (simp add: number_value_def not_overflows_of_nat dbl_of_nat)

lemma typeof_number_value: "typeof (number_value r) = ''number''"
  by (simp add: number_value_def)

lemma dec_val_example: "dec_val ''9007199254740993'' = 9007199254740993"
  by (simp add: dec_val_def digit_val_def)

lemma number_value_example: "number_value 9007199254740993 = JNum 9007199254740992"
  by code_simp

text \<open>
  C8. The rules of \<open>convertValue\<close> apply in order and the first match wins: the strings
  "123", "4.5", "true" and "hello" become the integer 123, the number 4.5, the boolean true
  and the string "hello"; every string whose trimmed form is all digits becomes a number,
  the number value of the base-10 integer it spells, so "1" and "0" become numbers and
  never reach the boolean rules. The number is that integer itself when it is below
  \<open>2 ^ 53\<close>; a longer one is rounded to a double, as "9007199254740993" is.
\<close>

theorem convertValue_first_match:
  "convertValue tz (JStr ''123'') = JNum 123
   \<and> convertValue tz (JStr ''4.5'') = JNum (9 / 2)
   \<and> convertValue tz (JStr ''true'') = JBool True
   \<and> convertValue tz (JStr ''hello'') = JStr ''hello''
   \<and> (\<forall>s. re_integer (trim s) \<longrightarrow>
          convertValue tz (JStr s) = number_value (of_nat (dec_val (trim s)))
          \<and> typeof (convertValue tz (JStr s)) = ''number''
          \<and> (dec_val (trim s) < 2 ^ 53 \<longrightarrow>
               convertValue tz (JStr s) = JNum (of_nat (dec_val (trim s)))))
   \<and> convertValue tz (JStr ''1'') = JNum 1
   \<and> convertValue tz (JStr ''0'') = JNum 0
   \<and> convertValue tz (JStr ''9007199254740993'') = JNum 9007199254740992"
proof -
  have a: "convertValue tz (JStr ''123'') = JNum 123" by code_simp
  have b: "convertValue tz (JStr ''4.5'') = JNum (9 / 2)" by code_simp
  have c: "convertValue tz (JStr ''true'') = JBool True" by code_simp
  have d: "convertValue tz (JStr ''hello'') = JStr ''hello''" by code_simp
  have e: "convertValue tz (JStr s) = number_value (of_nat (dec_val (trim s)))"
    if "re_integer (trim s)" for s
    using that by (simp add: convertValue_def Let_def parseInt10_def)
  have e': "\<forall>s. re_integer (trim s) \<longrightarrow>
          convertValue tz (JStr s) = number_value (of_nat (dec_val (trim s)))
          \<and> typeof (convertValue tz (JStr s)) = ''number''
          \<and> (dec_val (trim s) < 2 ^ 53 \<longrightarrow>
               convertValue tz (JStr s) = JNum (of_nat (dec_val (trim s))))"
    by (simp add: e typeof_number_value number_value_exact)
  have f: "convertValue tz (JStr ''1'') = JNum 1" by code_simp
  have g: "convertValue tz (JStr ''0'') = JNum 0" by code_simp
  have "trim ''9007199254740993'' = ''9007199254740993''" by code_simp
  moreover have "re_integer ''9007199254740993''" by code_simp
  ultimately have "convertValue tz (JStr ''9007199254740993'')
                   = number_value (of_nat (dec_val ''9007199254740993''))"
    using e[of "''9007199254740993''"] by simp
  then have h: "convertValue tz (JStr ''9007199254740993'') = JNum 9007199254740992"
    by (simp only: dec_val_example of_nat_numeral number_value_example)
  from a b c d e' f g h show ?thesis by blast
qed

theorem convertValue_first_match_witness:
  "re_integer (trim '' 42 '') \<and> dec_val (trim '' 42 '') < 2 ^ 53
   \<and> convertValue (\<lambda>m. []) (JStr '' 42 '') = JNum 42"
proof -
  have h: "re_integer (trim '' 42 '')" by code_simp
  have v: "dec_val (trim '' 42 '') = 42" by code_simp
  have l: "dec_val (trim '' 42 '') < 2 ^ 53" by (simp add: v)
  from convertValue_first_match [of "\<lambda>m. []"] h l
  have "convertValue (\<lambda>m. []) (JStr '' 42 '') = JNum (of_nat (dec_val (trim '' 42 '')))"
    by blast
  with h v l show ?thesis by simp
qed
section \<open>Properties of the analyzer\<close>

subsection \<open>The two top-level buckets\<close>

lemma first_response_frs:
  "firstResponseSLA (first_response h k t a) =
     (case first_response_class h t of
        None \<Rightarrow> firstResponseSLA a
      | Some Violation \<Rightarrow> (firstResponseSLA a)\<lparr>total := total (firstResponseSLA a) + 1,
                                                violations := violations (firstResponseSLA a) + 1\<rparr>
      | Some Compliant \<Rightarrow> (firstResponseSLA a)\<lparr>total := total (firstResponseSLA a) + 1,
                                                compliance := compliance (firstResponseSLA a) + 1\<rparr>
      | Some Neither \<Rightarrow> (firstResponseSLA a)\<lparr>total := total (firstResponseSLA a) + 1\<rparr>)"
  by (simp add: first_response_def first_response_class_def bump_time_violations_def Let_def
      split: status_class.splits)

lemma first_response_res: "resolutionSLA (first_response h k t a) = resolutionSLA a"
  by (simp add: first_response_def bump_time_violations_def Let_def split: status_class.splits)

lemma resolution_res:
  "resolutionSLA (resolution h k t a) =
     (case resolution_class h t of
        None \<Rightarrow> resolutionSLA a
      | Some Violation \<Rightarrow> (resolutionSLA a)\<lparr>total := total (resolutionSLA a) + 1,
                                             violations := violations (resolutionSLA a) + 1\<rparr>
      | Some Compliant \<Rightarrow> (resolutionSLA a)\<lparr>total := total (resolutionSLA a) + 1,
                                             compliance := compliance (resolutionSLA a) + 1\<rparr>
      | Some Neither \<Rightarrow> (resolutionSLA a)\<lparr>total := total (resolutionSLA a) + 1\<rparr>)"
  by (simp add: resolution_def resolution_class_def bump_time_violations_def Let_def
      split: status_class.splits)

lemma resolution_frs: "firstResponseSLA (resolution h k t a) = firstResponseSLA a"
  by (simp add: resolution_def bump_time_violations_def Let_def split: status_class.splits)

lemma count_ticket_buckets:
  "firstResponseSLA (count_ticket k a) = firstResponseSLA a"
  "resolutionSLA (count_ticket k a) = resolutionSLA a"
  by (simp_all add: count_ticket_def)

lemma track_combinations_buckets:
  "track_combinations k a = Inr a' \<Longrightarrow>
     firstResponseSLA a' = firstResponseSLA a \<and> resolutionSLA a' = resolutionSLA a"
  by (auto simp: track_combinations_def split: if_splits)

lemma process_ticket_split:
  assumes "process_ticket h a i t = Inr a'"
  obtains k a1 where "track_combinations k (count_ticket k a) = Inr a1"
    and "a' = resolution h k t (first_response h k t a1)"
  using assms
  by (auto simp: process_ticket_def Let_def split: jsval.splits sum.splits)

lemma process_ticket_frs:
  assumes "process_ticket h a i t = Inr a'"
  shows "firstResponseSLA a' =
     (case first_response_class h t of
        None \<Rightarrow> firstResponseSLA a
      | Some Violation \<Rightarrow> (firstResponseSLA a)\<lparr>total := total (firstResponseSLA a) + 1,
                                                violations := violations (firstResponseSLA a) + 1\<rparr>
      | Some Compliant \<Rightarrow> (firstResponseSLA a)\<lparr>total := total (firstResponseSLA a) + 1,
                                                compliance := compliance (firstResponseSLA a) + 1\<rparr>
      | Some Neither \<Rightarrow> (firstResponseSLA a)\<lparr>total := total (firstResponseSLA a) + 1\<rparr>)"
proof -
  from assms obtain k a1 where tc: "track_combinations k (count_ticket k a) = Inr a1"
    and a': "a' = resolution h k t (first_response h k t a1)"
    by (rule process_ticket_split)
  from track_combinations_buckets[OF tc] have "firstResponseSLA a1 = firstResponseSLA a"
    by (simp add: count_ticket_buckets)
  then show ?thesis
    by (simp add: a' resolution_frs first_response_frs split: option.splits status_class.splits)
qed

lemma process_ticket_res:
  assumes "process_ticket h a i t = Inr a'"
  shows "resolutionSLA a' =
     (case resolution_class h t of
        None \<Rightarrow> resolutionSLA a
      | Some Violation \<Rightarrow> (resolutionSLA a)\<lparr>total := total (resolutionSLA a) + 1,
                                             violations := violations (resolutionSLA a) + 1\<rparr>
      | Some Compliant \<Rightarrow> (resolutionSLA a)\<lparr>total := total (resolutionSLA a) + 1,
                                             compliance := compliance (resolutionSLA a) + 1\<rparr>
      | Some Neither \<Rightarrow> (resolutionSLA a)\<lparr>total := total (resolutionSLA a) + 1\<rparr>)"
proof -
  from assms obtain k a1 where tc: "track_combinations k (count_ticket k a) = Inr a1"
    and a': "a' = resolution h k t (first_response h k t a1)"
    by (rule process_ticket_split)
  from track_combinations_buckets[OF tc] have "resolutionSLA a1 = resolutionSLA a"
    by (simp add: count_ticket_buckets)
  then show ?thesis
    by (simp add: a' resolution_res first_response_res split: option.splits status_class.splits)
qed

text \<open>The buckets after the loop, as counts over the tickets.\<close>

lemma process_tickets_frs:
  "process_tickets h a i ts = Inr a' \<Longrightarrow>
     total (firstResponseSLA a') = total (firstResponseSLA a) + count_where (\<lambda>t. first_response_class h t \<noteq> None) ts
     \<and> violations (firstResponseSLA a') = violations (firstResponseSLA a) + count_where (\<lambda>t. first_response_class h t = Some Violation) ts
     \<and> compliance (firstResponseSLA a') = compliance (firstResponseSLA a) + count_where (\<lambda>t. first_response_class h t = Some Compliant) ts
     \<and> compliancePercentage (firstResponseSLA a') = compliancePercentage (firstResponseSLA a)
     \<and> violationPercentage (firstResponseSLA a') = violationPercentage (firstResponseSLA a)"
proof (induction ts arbitrary: a i)
  case Nil
  then show ?case by (simp add: count_where_def)
next
  case (Cons t ts)
  from Cons.prems obtain a1 where s: "process_ticket h a i t = Inr a1"
    and r: "process_tickets h a1 (i + 1) ts = Inr a'"
    by (auto split: sum.splits)
  note ih = Cons.IH[OF r]
  from process_ticket_frs[OF s] ih show ?case
    by (cases "first_response_class h t")
       (auto simp: count_where_def split: status_class.splits)
qed

lemma process_tickets_res:
  "process_tickets h a i ts = Inr a' \<Longrightarrow>
     total (resolutionSLA a') = total (resolutionSLA a) + count_where (\<lambda>t. resolution_class h t \<noteq> None) ts
     \<and> violations (resolutionSLA a') = violations (resolutionSLA a) + count_where (\<lambda>t. resolution_class h t = Some Violation) ts
     \<and> compliance (resolutionSLA a') = compliance (resolutionSLA a) + count_where (\<lambda>t. resolution_class h t = Some Compliant) ts
     \<and> compliancePercentage (resolutionSLA a') = compliancePercentage (resolutionSLA a)
     \<and> violationPercentage (resolutionSLA a') = violationPercentage (resolutionSLA a)"
proof (induction ts arbitrary: a i)
  case Nil
  then show ?case by (simp add: count_where_def)
next
  case (Cons t ts)
  from Cons.prems obtain a1 where s: "process_ticket h a i t = Inr a1"
    and r: "process_tickets h a1 (i + 1) ts = Inr a'"
    by (auto split: sum.splits)
  note ih = Cons.IH[OF r]
  from process_ticket_res[OF s] ih show ?case
    by (cases "resolution_class h t")
       (auto simp: count_where_def split: status_class.splits)
qed

lemma basic_first_response_frs:
  "b_firstResponseSLA (basic_first_response h ag cat t a) =
     (case basic_first_response_class h t of
        None \<Rightarrow> b_firstResponseSLA a
      | Some Violation \<Rightarrow> (b_firstResponseSLA a)\<lparr>b_total := b_total (b_firstResponseSLA a) + 1,
                                                  b_violations := b_violations (b_firstResponseSLA a) + 1\<rparr>
      | Some Compliant \<Rightarrow> (b_firstResponseSLA a)\<lparr>b_total := b_total (b_firstResponseSLA a) + 1,
                                                  b_compliance := b_compliance (b_firstResponseSLA a) + 1\<rparr>
      | Some Neither \<Rightarrow> (b_firstResponseSLA a)\<lparr>b_total := b_total (b_firstResponseSLA a) + 1\<rparr>)"
  by (simp add: basic_first_response_def basic_first_response_class_def Let_def
      split: status_class.splits)

lemma basic_first_response_res:
  "b_resolutionSLA (basic_first_response h ag cat t a) = b_resolutionSLA a"
  by (simp add: basic_first_response_def Let_def split: status_class.splits)

lemma basic_resolution_res:
  "b_resolutionSLA (basic_resolution h ag cat t a) =
     (case basic_resolution_class h t of
        None \<Rightarrow> b_resolutionSLA a
      | Some Violation \<Rightarrow> (b_resolutionSLA a)\<lparr>b_total := b_total (b_resolutionSLA a) + 1,
                                               b_violations := b_violations (b_resolutionSLA a) + 1\<rparr>
      | Some Compliant \<Rightarrow> (b_resolutionSLA a)\<lparr>b_total := b_total (b_resolutionSLA a) + 1,
                                               b_compliance := b_compliance (b_resolutionSLA a) + 1\<rparr>
      | Some Neither \<Rightarrow> (b_resolutionSLA a)\<lparr>b_total := b_total (b_resolutionSLA a) + 1\<rparr>)"
  by (simp add: basic_resolution_def basic_resolution_class_def Let_def
      split: status_class.splits)

lemma basic_resolution_frs:
  "b_firstResponseSLA (basic_resolution h ag cat t a) = b_firstResponseSLA a"
  by (simp add: basic_resolution_def Let_def split: status_class.splits)

lemma basic_process_ticket_frs:
  "b_firstResponseSLA (basic_process_ticket h a t) =
     (case basic_first_response_class h t of
        None \<Rightarrow> b_firstResponseSLA a
      | Some Violation \<Rightarrow> (b_firstResponseSLA a)\<lparr>b_total := b_total (b_firstResponseSLA a) + 1,
                                                  b_violations := b_violations (b_firstResponseSLA a) + 1\<rparr>
      | Some Compliant \<Rightarrow> (b_firstResponseSLA a)\<lparr>b_total := b_total (b_firstResponseSLA a) + 1,
                                                  b_compliance := b_compliance (b_firstResponseSLA a) + 1\<rparr>
      | Some Neither \<Rightarrow> (b_firstResponseSLA a)\<lparr>b_total := b_total (b_firstResponseSLA a) + 1\<rparr>)"
  by (simp add: basic_process_ticket_def Let_def basic_resolution_frs basic_first_response_frs
      split: option.splits status_class.splits)

lemma basic_process_ticket_res:
  "b_resolutionSLA (basic_process_ticket h a t) =
     (case basic_resolution_class h t of
        None \<Rightarrow> b_resolutionSLA a
      | Some Violation \<Rightarrow> (b_resolutionSLA a)\<lparr>b_total := b_total (b_resolutionSLA a) + 1,
                                               b_violations := b_violations (b_resolutionSLA a) + 1\<rparr>
      | Some Compliant \<Rightarrow> (b_resolutionSLA a)\<lparr>b_total := b_total (b_resolutionSLA a) + 1,
                                               b_compliance := b_compliance (b_resolutionSLA a) + 1\<rparr>
      | Some Neither \<Rightarrow> (b_resolutionSLA a)\<lparr>b_total := b_total (b_resolutionSLA a) + 1\<rparr>)"
  by (simp add: basic_process_ticket_def Let_def basic_resolution_res basic_first_response_res
      split: option.splits status_class.splits)

lemma basic_fold_frs:
  "b_total (b_firstResponseSLA (foldl (basic_process_ticket h) a ts))
      = b_total (b_firstResponseSLA a) + count_where (\<lambda>t. basic_first_response_class h t \<noteq> None) ts
   \<and> b_violations (b_firstResponseSLA (foldl (basic_process_ticket h) a ts))
      = b_violations (b_firstResponseSLA a) + count_where (\<lambda>t. basic_first_response_class h t = Some Violation) ts
   \<and> b_compliance (b_firstResponseSLA (foldl (basic_process_ticket h) a ts))
      = b_compliance (b_firstResponseSLA a) + count_where (\<lambda>t. basic_first_response_class h t = Some Compliant) ts
   \<and> b_compliancePercentage (b_firstResponseSLA (foldl (basic_process_ticket h) a ts))
      = b_compliancePercentage (b_firstResponseSLA a)
   \<and> b_violationPercentage (b_firstResponseSLA (foldl (basic_process_ticket h) a ts))
      = b_violationPercentage (b_firstResponseSLA a)"
proof (induction ts arbitrary: a)
  case Nil
  then show ?case by (simp add: count_where_def)
next
  case (Cons t ts)
  from Cons.IH[of "basic_process_ticket h a t"] basic_process_ticket_frs[of h a t]
  show ?case
    by (cases "basic_first_response_class h t")
       (auto simp: count_where_def split: status_class.splits)
qed

lemma basic_fold_res:
  "b_total (b_resolutionSLA (foldl (basic_process_ticket h) a ts))
      = b_total (b_resolutionSLA a) + count_where (\<lambda>t. basic_resolution_class h t \<noteq> None) ts
   \<and> b_violations (b_resolutionSLA (foldl (basic_process_ticket h) a ts))
      = b_violations (b_resolutionSLA a) + count_where (\<lambda>t. basic_resolution_class h t = Some Violation) ts
   \<and> b_compliance (b_resolutionSLA (foldl (basic_process_ticket h) a ts))
      = b_compliance (b_resolutionSLA a) + count_where (\<lambda>t. basic_resolution_class h t = Some Compliant) ts
   \<and> b_compliancePercentage (b_resolutionSLA (foldl (basic_process_ticket h) a ts))
      = b_compliancePercentage (b_resolutionSLA a)
   \<and> b_violationPercentage (b_resolutionSLA (foldl (basic_process_ticket h) a ts))
      = b_violationPercentage (b_resolutionSLA a)"
proof (induction ts arbitrary: a)
  case Nil
  then show ?case by (simp add: count_where_def)
next
  case (Cons t ts)
  from Cons.IH[of "basic_process_ticket h a t"] basic_process_ticket_res[of h a t]
  show ?case
    by (cases "basic_resolution_class h t")
       (auto simp: count_where_def split: status_class.splits)
qed

text \<open>Tickets are counted in at most one of the two classes.\<close>

lemma count_where_disjoint:
  "count_where (\<lambda>t. f t = Some Violation) ts + count_where (\<lambda>t. f t = Some Compliant) ts
     \<le> count_where (\<lambda>t. f t \<noteq> None) ts"
  unfolding count_where_def by (induction ts) auto

lemma count_where_violation_le:
  "count_where (\<lambda>t. f t = Some Violation) ts \<le> count_where (\<lambda>t. f t \<noteq> None) ts"
  unfolding count_where_def by (induction ts) auto

lemma analyze_cases:
  assumes "analyzeSLAPerformance h arg = Inr (Some r)"
  obtains tickets a where "arg = Some tickets" "tickets \<noteq> []"
    "process_tickets h (initial_analysis (length tickets)) 0 tickets = Inr a"
    "r = analysis.extend (finish a) (sla_analysis.fields (generatePerformanceInsights (finish a)))"
  using assms
  by (auto simp: analyzeSLAPerformance_def split: option.splits if_splits sum.splits)

lemma extend_fields:
  "firstResponseSLA (analysis.extend a m) = firstResponseSLA a"
  "resolutionSLA (analysis.extend a m) = resolutionSLA a"
  "agents (analysis.extend a m) = agents a"
  "insights (analysis.extend a (sla_analysis.fields i)) = i"
  by (simp_all add: analysis.defs sla_analysis.defs)

lemma analyze_buckets:
  assumes "analyzeSLAPerformance h (Some tickets) = Inr (Some r)"
  shows "firstResponseSLA r = finish_bucket (counted_bucket (first_response_class h) tickets)"
    and "resolutionSLA r = finish_bucket (counted_bucket (resolution_class h) tickets)"
proof -
  from assms obtain a where
    p: "process_tickets h (initial_analysis (length tickets)) 0 tickets = Inr a"
    and r: "r = analysis.extend (finish a) (sla_analysis.fields (generatePerformanceInsights (finish a)))"
    by (auto elim!: analyze_cases)
  from process_tickets_frs[OF p]
  have "firstResponseSLA a = counted_bucket (first_response_class h) tickets"
    by (simp add: counted_bucket_def initial_analysis_def empty_bucket_def)
  then show "firstResponseSLA r = finish_bucket (counted_bucket (first_response_class h) tickets)"
    by (simp add: r extend_fields finish_def)
  from process_tickets_res[OF p]
  have "resolutionSLA a = counted_bucket (resolution_class h) tickets"
    by (simp add: counted_bucket_def initial_analysis_def empty_bucket_def)
  then show "resolutionSLA r = finish_bucket (counted_bucket (resolution_class h) tickets)"
    by (simp add: r extend_fields finish_def)
qed

subsection \<open>When the analyzer throws\<close>

lemma keys_modify: "map fst (modify m k f) = map fst m"
  by (induction m) (auto simp: modify_def)

lemma keys_modify_set: "fst ` set (modify m k f) = fst ` set m"
  using keys_modify [of m k f] by (metis set_map)

lemma keys_obj_insert_map: "set (map fst (obj_insert k v m)) = insert k (set (map fst m))"
proof (induction m)
  case Nil
  then show ?case by simp
next
  case (Cons e m)
  obtain k' v' where e: "e = (k', v')" by (cases e)
  show ?case
  proof (cases "is_array_index k \<and> (\<not> is_array_index k' \<or> dec_val k < dec_val k')")
    case True
    then show ?thesis unfolding e by (simp add: insert_commute)
  next
    case False
    then have "obj_insert k v ((k', v') # m) = (k', v') # obj_insert k v m"
      by (simp only: obj_insert.simps if_False)
    then show ?thesis unfolding e using Cons.IH by (simp add: insert_commute)
  qed
qed

lemma keys_obj_insert: "fst ` set (obj_insert k v m) = insert k (fst ` set m)"
  unfolding set_map [symmetric] by (rule keys_obj_insert_map)

lemma keys_ensure:
  "fst ` set (ensure m k v) = (if k \<in> set inherited_keys then fst ` set m else insert k (fst ` set m))"
  by (auto simp: ensure_def has_own_def keys_obj_insert)

lemma agents_first_response:
  "map fst (agents (first_response h k t a)) = map fst (agents a)"
  by (simp add: first_response_def bump_time_violations_def Let_def keys_modify
      split: status_class.splits)

lemma agents_resolution:
  "map fst (agents (resolution h k t a)) = map fst (agents a)"
  by (simp add: resolution_def bump_time_violations_def Let_def keys_modify
      split: status_class.splits)

lemma agents_count_ticket:
  "fst ` set (agents (count_ticket k a)) =
     (if k_agent k \<in> set inherited_keys then fst ` set (agents a)
      else insert (k_agent k) (fst ` set (agents a)))"
  by (simp add: count_ticket_def keys_modify_set keys_ensure)

lemma clean_agents_iff: "clean_agents a \<longleftrightarrow> fst ` set (agents a) \<inter> set inherited_keys = {}"
  by (auto simp: clean_agents_def list_all_iff)

lemma track_combinations_iff:
  "clean_agents a \<Longrightarrow>
     (\<exists>a'. track_combinations k (count_ticket k a) = Inr a') \<longleftrightarrow> k_agent k \<notin> set inherited_keys"
  by (auto simp: track_combinations_def has_own_def agents_count_ticket clean_agents_iff)

lemma track_combinations_agents:
  "track_combinations k a = Inr a' \<Longrightarrow> map fst (agents a') = map fst (agents a)"
  by (auto simp: track_combinations_def keys_modify split: if_splits)

lemma process_ticket_throws:
  assumes "clean_agents a"
  shows "(\<exists>e. process_ticket h a i t = Inl e) \<longleftrightarrow> ticket_throws h i t"
proof (cases "first_truthy [get_prop t ''Created Date'', get_prop t ''Date Created'',
                          get_prop t ''Created''] (JStr (now h i))")
  case (JStr created)
  let ?k = "\<lparr>k_agent = to_string h (first_truthy [get_prop t ''Agent'', get_prop t ''Resolved by'',
                                get_prop t ''Assignee''] (JStr ''Unknown'')),
             k_category = to_string h (first_truthy [get_prop t ''Category'', get_prop t ''Sub-Category'',
                                   get_prop t ''Type''] (JStr ''Unknown'')),
             k_priority = to_string h (first_truthy [get_prop t ''Priority'', get_prop t ''Urgency'']
                                  (JStr ''Medium'')),
             k_dateKey = substring0 created 10,
             k_dayOfWeek = getDay h created, k_monthKey = substring0 created 7\<rparr>"
  have p: "process_ticket h a i t =
     (case track_combinations ?k (count_ticket ?k a) of
        Inl e \<Rightarrow> Inl e
      | Inr a1 \<Rightarrow> Inr (resolution h ?k t (first_response h ?k t a1)))"
    using JStr by (simp add: process_ticket_def Let_def del: first_truthy.simps)
  have "(\<exists>e. process_ticket h a i t = Inl e) \<longleftrightarrow> \<not> (\<exists>a'. track_combinations ?k (count_ticket ?k a) = Inr a')"
    unfolding p by (cases "track_combinations ?k (count_ticket ?k a)") auto
  also have "\<dots> \<longleftrightarrow> k_agent ?k \<in> set inherited_keys"
    using track_combinations_iff[OF assms, of ?k] by simp
  also have "\<dots> \<longleftrightarrow> ticket_throws h i t"
    using JStr by (simp add: ticket_throws_def del: first_truthy.simps)
  finally show ?thesis .
qed (simp_all add: process_ticket_def Let_def ticket_throws_def del: first_truthy.simps)

lemma process_ticket_clean:
  assumes "clean_agents a" "process_ticket h a i t = Inr a'"
  shows "clean_agents a'"
proof -
  from assms(2) obtain k a1 where tc: "track_combinations k (count_ticket k a) = Inr a1"
    and a': "a' = resolution h k t (first_response h k t a1)"
    by (rule process_ticket_split)
  from tc assms(1) have n: "k_agent k \<notin> set inherited_keys"
    using track_combinations_iff[OF assms(1), of k] by blast
  have "clean_agents (count_ticket k a)"
    using assms(1) n unfolding clean_agents_iff agents_count_ticket by auto
  with track_combinations_agents[OF tc] have "clean_agents a1"
    by (simp add: clean_agents_def)
  then show ?thesis
    by (simp add: a' clean_agents_def agents_resolution agents_first_response)
qed

lemma process_tickets_throws:
  "clean_agents a \<Longrightarrow>
     (\<exists>e. process_tickets h a i ts = Inl e) \<longleftrightarrow> list_ex (\<lambda>(j, t). ticket_throws h j t) (enumerate i ts)"
proof (induction ts arbitrary: a i)
  case Nil
  then show ?case by simp
next
  case (Cons t ts)
  show ?case
  proof (cases "process_ticket h a i t")
    case (Inl e)
    with process_ticket_throws[OF Cons.prems, of h i t] have "ticket_throws h i t" by auto
    with Inl show ?thesis by simp
  next
    case (Inr a1)
    with process_ticket_throws[OF Cons.prems, of h i t] have n: "\<not> ticket_throws h i t" by auto
    from process_ticket_clean[OF Cons.prems Inr] have "clean_agents a1" .
    from Cons.IH[OF this, of "i + 1"] Inr n show ?thesis by simp
  qed
qed

lemma analyzer_throws_iff:
  "(\<exists>e. analyzeSLAPerformance h (Some tickets) = Inl e)
     \<longleftrightarrow> list_ex (\<lambda>(j, t). ticket_throws h j t) (enumerate 0 tickets)"
proof (cases "tickets = []")
  case True
  then show ?thesis by (simp add: analyzeSLAPerformance_def)
next
  case False
  have c: "clean_agents (initial_analysis (length tickets))"
    by (simp add: clean_agents_def initial_analysis_def)
  have "(\<exists>e. analyzeSLAPerformance h (Some tickets) = Inl e)
          \<longleftrightarrow> (\<exists>e. process_tickets h (initial_analysis (length tickets)) 0 tickets = Inl e)"
    using False by (auto simp: analyzeSLAPerformance_def split: sum.splits)
  with process_tickets_throws[OF c, of h 0 tickets] show ?thesis by simp
qed

lemma analyzer_returns:
  assumes "tickets \<noteq> []" "\<not> list_ex (\<lambda>(j, t). ticket_throws h j t) (enumerate 0 tickets)"
  shows "\<exists>r. analyzeSLAPerformance h (Some tickets) = Inr (Some r)"
proof -
  from assms(2) analyzer_throws_iff[of h tickets]
  have "\<not> (\<exists>e. analyzeSLAPerformance h (Some tickets) = Inl e)" by simp
  then obtain x where x: "analyzeSLAPerformance h (Some tickets) = Inr x"
    by (cases "analyzeSLAPerformance h (Some tickets)") auto
  with assms(1) show ?thesis
    by (auto simp: analyzeSLAPerformance_def split: sum.splits if_splits)
qed

subsection \<open>Claims about the analyzer\<close>

lemma finish_bucket_counts:
  "total (finish_bucket b) = total b"
  "violations (finish_bucket b) = violations b"
  "compliance (finish_bucket b) = compliance b"
  by (simp_all add: finish_bucket_def)

lemma counted_bucket_conserves:
  "violations (counted_bucket f ts) + compliance (counted_bucket f ts) \<le> total (counted_bucket f ts)"
  using count_where_disjoint [of f ts] by (simp add: counted_bucket_def)

lemma basic_analyze_cases:
  assumes "analyzeSLAPerformance_basic h (Some tickets) = Some b"
  shows "b_firstResponseSLA b =
           basic_finish_bucket (b_firstResponseSLA (foldl (basic_process_ticket h)
             \<lparr>b_totalTickets = length tickets, b_firstResponseSLA = basic_empty_bucket,
              b_resolutionSLA = basic_empty_bucket, b_agents = [], b_categories = []\<rparr> tickets))"
    and "b_resolutionSLA b =
           basic_finish_bucket (b_resolutionSLA (foldl (basic_process_ticket h)
             \<lparr>b_totalTickets = length tickets, b_firstResponseSLA = basic_empty_bucket,
              b_resolutionSLA = basic_empty_bucket, b_agents = [], b_categories = []\<rparr> tickets))"
  using assms
  by (auto simp: analyzeSLAPerformance_basic_def Let_def split: if_splits)

lemma basic_finish_bucket_counts:
  "b_total (basic_finish_bucket b) = b_total b"
  "b_violations (basic_finish_bucket b) = b_violations b"
  "b_compliance (basic_finish_bucket b) = b_compliance b"
  by (simp_all add: basic_finish_bucket_def)

lemma scenario_1_returns:
  "\<exists>r. analyzeSLAPerformance example_host (Some scenario_1) = Inr (Some r)"
proof -
  have "returns_analysis (analyzeSLAPerformance example_host (Some scenario_1))"
    by code_simp
  then show ?thesis
    by (auto simp: returns_analysis_def split: sum.splits option.splits)
qed

lemma scenario_1_returns_basic:
  "\<exists>b. analyzeSLAPerformance_basic example_host (Some scenario_1) = Some b"
  by (simp add: analyzeSLAPerformance_basic_def scenario_1_def Let_def)

lemma scenario_1_counts:
  "count_where (\<lambda>t. first_response_class example_host t \<noteq> None) scenario_1 = 2"
  "count_where (\<lambda>t. first_response_class example_host t = Some Violation) scenario_1 = 1"
  "count_where (\<lambda>t. first_response_class example_host t = Some Compliant) scenario_1 = 1"
  by code_simp+

text \<open>
  C6. For every dataset and for each of the two top-level buckets, in both versions of the
  analyzer, \<open>violations + compliance \<le> total\<close>: \<open>total\<close> is the number of tickets in
  which a status was found, \<open>violations\<close> the number of those whose status has a violation
  keyword, and \<open>compliance\<close> the number of those whose status has no violation keyword but
  a compliance keyword.
\<close>

theorem sla_conservation:
  "(analyzeSLAPerformance h (Some tickets) = Inr (Some r) \<longrightarrow>
      violations (firstResponseSLA r) + compliance (firstResponseSLA r) \<le> total (firstResponseSLA r)
      \<and> violations (resolutionSLA r) + compliance (resolutionSLA r) \<le> total (resolutionSLA r)
      \<and> total (firstResponseSLA r) = count_where (\<lambda>t. first_response_class h t \<noteq> None) tickets
      \<and> violations (firstResponseSLA r) = count_where (\<lambda>t. first_response_class h t = Some Violation) tickets
      \<and> compliance (firstResponseSLA r) = count_where (\<lambda>t. first_response_class h t = Some Compliant) tickets
      \<and> total (resolutionSLA r) = count_where (\<lambda>t. resolution_class h t \<noteq> None) tickets
      \<and> violations (resolutionSLA r) = count_where (\<lambda>t. resolution_class h t = Some Violation) tickets
      \<and> compliance (resolutionSLA r) = count_where (\<lambda>t. resolution_class h t = Some Compliant) tickets)
   \<and> (analyzeSLAPerformance_basic h (Some tickets) = Some b \<longrightarrow>
      b_violations (b_firstResponseSLA b) + b_compliance (b_firstResponseSLA b) \<le> b_total (b_firstResponseSLA b)
      \<and> b_violations (b_resolutionSLA b) + b_compliance (b_resolutionSLA b) \<le> b_total (b_resolutionSLA b)
      \<and> b_total (b_firstResponseSLA b) = count_where (\<lambda>t. basic_first_response_class h t \<noteq> None) tickets
      \<and> b_total (b_resolutionSLA b) = count_where (\<lambda>t. basic_resolution_class h t \<noteq> None) tickets)"
proof (intro conjI impI)
  assume a: "analyzeSLAPerformance h (Some tickets) = Inr (Some r)"
  note f = analyze_buckets(1)[OF a] and s = analyze_buckets(2)[OF a]
  show "violations (firstResponseSLA r) + compliance (firstResponseSLA r) \<le> total (firstResponseSLA r)"
    unfolding f finish_bucket_counts by (rule counted_bucket_conserves)
  show "violations (resolutionSLA r) + compliance (resolutionSLA r) \<le> total (resolutionSLA r)"
    unfolding s finish_bucket_counts by (rule counted_bucket_conserves)
  show "total (firstResponseSLA r) = count_where (\<lambda>t. first_response_class h t \<noteq> None) tickets"
    unfolding f finish_bucket_counts by (simp add: counted_bucket_def)
  show "violations (firstResponseSLA r) = count_where (\<lambda>t. first_response_class h t = Some Violation) tickets"
    unfolding f finish_bucket_counts by (simp add: counted_bucket_def)
  show "compliance (firstResponseSLA r) = count_where (\<lambda>t. first_response_class h t = Some Compliant) tickets"
    unfolding f finish_bucket_counts by (simp add: counted_bucket_def)
  show "total (resolutionSLA r) = count_where (\<lambda>t. resolution_class h t \<noteq> None) tickets"
    unfolding s finish_bucket_counts by (simp add: counted_bucket_def)
  show "violations (resolutionSLA r) = count_where (\<lambda>t. resolution_class h t = Some Violation) tickets"
    unfolding s finish_bucket_counts by (simp add: counted_bucket_def)
  show "compliance (resolutionSLA r) = count_where (\<lambda>t. resolution_class h t = Some Compliant) tickets"
    unfolding s finish_bucket_counts by (simp add: counted_bucket_def)
next
  assume a: "analyzeSLAPerformance_basic h (Some tickets) = Some b"
  note f = basic_analyze_cases(1)[OF a] and s = basic_analyze_cases(2)[OF a]
  show "b_violations (b_firstResponseSLA b) + b_compliance (b_firstResponseSLA b) \<le> b_total (b_firstResponseSLA b)"
    unfolding f basic_finish_bucket_counts
    using count_where_disjoint [of "basic_first_response_class h" tickets]
    by (simp add: basic_fold_frs basic_empty_bucket_def)
  show "b_violations (b_resolutionSLA b) + b_compliance (b_resolutionSLA b) \<le> b_total (b_resolutionSLA b)"
    unfolding s basic_finish_bucket_counts
    using count_where_disjoint [of "basic_resolution_class h" tickets]
    by (simp add: basic_fold_res basic_empty_bucket_def)
  show "b_total (b_firstResponseSLA b) = count_where (\<lambda>t. basic_first_response_class h t \<noteq> None) tickets"
    unfolding f basic_finish_bucket_counts
    by (simp add: basic_fold_frs basic_empty_bucket_def)
  show "b_total (b_resolutionSLA b) = count_where (\<lambda>t. basic_resolution_class h t \<noteq> None) tickets"
    unfolding s basic_finish_bucket_counts
    by (simp add: basic_fold_res basic_empty_bucket_def)
qed

theorem sla_conservation_witness:
  "\<exists>r b. analyzeSLAPerformance example_host (Some scenario_1) = Inr (Some r)
     \<and> analyzeSLAPerformance_basic example_host (Some scenario_1) = Some b
     \<and> violations (firstResponseSLA r) + compliance (firstResponseSLA r) \<le> total (firstResponseSLA r)
     \<and> total (firstResponseSLA r) = 2 \<and> violations (firstResponseSLA r) = 1
     \<and> compliance (firstResponseSLA r) = 1
     \<and> b_violations (b_firstResponseSLA b) + b_compliance (b_firstResponseSLA b) \<le> b_total (b_firstResponseSLA b)"
proof -
  from scenario_1_returns obtain r
    where r: "analyzeSLAPerformance example_host (Some scenario_1) = Inr (Some r)" ..
  from scenario_1_returns_basic obtain b
    where b: "analyzeSLAPerformance_basic example_host (Some scenario_1) = Some b" ..
  from sla_conservation [of example_host scenario_1 r b] r b scenario_1_counts
  show ?thesis by (intro exI[of _ r] exI[of _ b]) simp
qed

text \<open>
  C2. The analyzer returns null for a missing and for an empty input, but it does throw on
  an array of records: a ticket whose created date is a number (the CSV parser types such
  cells) has no \<open>substring\<close> method, and the call raises a TypeError. It throws exactly
  when some ticket has a truthy created date that is not a string or an agent named like a
  member of Object.prototype.
\<close>

theorem analyzer_throws_on_numeric_date:
  "analyzeSLAPerformance h None = Inr None
   \<and> analyzeSLAPerformance h (Some []) = Inr None
   \<and> analyzeSLAPerformance h (Some [[(''Created Date'', JNum 20240101)]]) = Inl TypeError
   \<and> ((\<exists>e. analyzeSLAPerformance h (Some tickets) = Inl e)
        = list_ex (\<lambda>(j, t). ticket_throws h j t) (enumerate 0 tickets))"
proof -
  have "analyzeSLAPerformance h None = Inr None"
    and "analyzeSLAPerformance h (Some []) = Inr None"
    and "analyzeSLAPerformance h (Some [[(''Created Date'', JNum 20240101)]]) = Inl TypeError"
    by (simp_all add: analyzeSLAPerformance_def process_ticket_def get_prop_def inherited_keys_def)
  with analyzer_throws_iff [of h tickets] show ?thesis by blast
qed

text \<open>
  C10. For the single ticket whose first-response status and resolution status both hold a
  violation keyword, the agent has one ticket and two violations, and the reported
  compliance rate is the negative "-100.0"; the two top-level buckets of the same analysis
  report "0.0".
\<close>

theorem agent_rate_negative:
  "(case analyzeSLAPerformance example_host (Some double_breach) of
      Inr (Some r) \<Rightarrow>
        (map (\<lambda>(k, d). (k, agent_total d, agent_responseViolations d, agent_resolutionViolations d,
                        agent_totalViolations d, agent_complianceRate d,
                        js_less (parseFloat (agent_complianceRate d)) (Fin 0)))
             (agents r),
         compliancePercentage (firstResponseSLA r), compliancePercentage (resolutionSLA r))
    | _ \<Rightarrow> ([], [], []))
   = ([(''A'', 1, 1, 1, 2, JStr ''-100.0'', True)], ''0.0'', ''0.0'')"
  by code_simp

text \<open>
  C5. In the first version of the analyzer a bucket starts without a
  \<open>violationPercentage\<close>, and the property is written only when \<open>total > 0\<close>: for a
  ticket without status columns both buckets have \<open>total = 0\<close>, \<open>compliancePercentage\<close>
  "0" and no \<open>violationPercentage\<close> at all.
\<close>

theorem basic_violation_percentage_absent:
  "map_option (\<lambda>b. (b_total (b_firstResponseSLA b), b_compliancePercentage (b_firstResponseSLA b),
                    b_violationPercentage (b_firstResponseSLA b),
                    b_total (b_resolutionSLA b), b_compliancePercentage (b_resolutionSLA b),
                    b_violationPercentage (b_resolutionSLA b)))
     (analyzeSLAPerformance_basic h (Some no_status_ticket))
   = Some (0, ''0'', None, 0, ''0'', None)"
  by (simp add: analyzeSLAPerformance_basic_def no_status_ticket_def basic_process_ticket_def
      basic_first_response_def basic_resolution_def get_prop_def inherited_keys_def
      basic_finish_bucket_def basic_empty_bucket_def Let_def)

subsection \<open>Writing a percentage and reading it back\<close>

lemma is_digit_digit_char: "d < 10 \<Longrightarrow> is_digit (digit_char d)"
  by (simp add: is_digit_def digit_char_def)

lemma digit_val_digit_char: "d < 10 \<Longrightarrow> digit_val (digit_char d) = d"
  by (simp add: digit_val_def digit_char_def)

lemma dec_val_snoc: "dec_val (xs @ [c]) = 10 * dec_val xs + digit_val c"
  by (simp add: dec_val_def)

lemma show_nat_digits: "list_all is_digit (show_nat n)"
proof (induction n rule: show_nat.induct)
  case (1 n)
  show ?case
  proof (cases "n < 10")
    case True
    then show ?thesis by (subst show_nat.simps) (simp add: is_digit_digit_char)
  next
    case False
    with 1 show ?thesis by (subst show_nat.simps) (simp add: is_digit_digit_char)
  qed
qed

lemma show_nat_nonempty: "show_nat n \<noteq> []"
  by (subst show_nat.simps) simp

lemma dec_val_show_nat: "dec_val (show_nat n) = n"
proof (induction n rule: show_nat.induct)
  case (1 n)
  show ?case
  proof (cases "n < 10")
    case True
    then show ?thesis
      by (subst show_nat.simps) (simp add: dec_val_def digit_val_digit_char)
  next
    case False
    with 1 have "dec_val (show_nat (n div 10)) = n div 10" by simp
    with False show ?thesis
      by (subst show_nat.simps) (simp add: dec_val_snoc digit_val_digit_char)
  qed
qed

lemma show_nat_small: "d < 10 \<Longrightarrow> show_nat d = [digit_char d]"
  by (subst show_nat.simps) simp

lemma is_digit_not_special:
  "is_digit c \<Longrightarrow> \<not> js_whitespace c \<and> c \<noteq> CHR ''-'' \<and> c \<noteq> CHR ''+'' \<and> c \<noteq> CHR ''I'' \<and> c \<noteq> CHR ''.''"
  by (auto simp: is_digit_def js_whitespace_def)

lemma takeWhile_digits_dot:
  "list_all is_digit ds \<Longrightarrow> takeWhile is_digit (ds @ CHR ''.'' # r) = ds"
  by (induction ds) (auto simp: is_digit_def)

lemma dropWhile_digits_dot:
  "list_all is_digit ds \<Longrightarrow> dropWhile is_digit (ds @ CHR ''.'' # r) = CHR ''.'' # r"
  by (induction ds) (auto simp: is_digit_def)

lemma takeWhile_all: "list_all P xs \<Longrightarrow> takeWhile P xs = xs"
  by (induction xs) auto

lemma dropWhile_all: "list_all P xs \<Longrightarrow> dropWhile P xs = []"
  by (induction xs) auto

text \<open>Reading back an unsigned number written with one decimal.\<close>

lemma parse_unsigned:
  assumes "list_all is_digit ds" "ds \<noteq> []" "d < 10"
  shows "parseFloat_string (ds @ ''.'' @ [digit_char d]) = round_number (of_nat (dec_val ds) + of_nat d / 10)"
proof -
  obtain c cs where ds: "ds = c # cs" using assms(2) by (cases ds) auto
  with assms(1) have c: "is_digit c" by simp
  note sp = is_digit_not_special[OF c]
  have t: "dropWhile js_whitespace (ds @ ''.'' @ [digit_char d]) = ds @ ''.'' @ [digit_char d]"
    using sp by (simp add: ds)
  have fd: "list_all is_digit [digit_char d]" using assms(3) by (simp add: is_digit_digit_char)
  show ?thesis
    unfolding parseFloat_string_def t Let_def
    using sp assms(1) fd assms(3)
    by (simp add: ds takeWhile_digits_dot[unfolded ds] dropWhile_digits_dot[unfolded ds]
        parse_exponent_def pow10_def dec_val_def digit_val_digit_char is_digit_digit_char)
qed

lemma parse_negative:
  assumes "list_all is_digit ds" "ds \<noteq> []" "d < 10"
  shows "parseFloat_string (''-'' @ ds @ ''.'' @ [digit_char d])
           = round_number (- (of_nat (dec_val ds) + of_nat d / 10))"
proof -
  obtain c cs where ds: "ds = c # cs" using assms(2) by (cases ds) auto
  with assms(1) have c: "is_digit c" by simp
  note sp = is_digit_not_special[OF c]
  have w: "\<not> js_whitespace CHR ''-''" by (simp add: js_whitespace_def)
  have fd: "list_all is_digit [digit_char d]" using assms(3) by (simp add: is_digit_digit_char)
  show ?thesis
    unfolding parseFloat_string_def Let_def
    using sp assms(1) fd assms(3) w
    by (simp add: ds takeWhile_digits_dot[unfolded ds] dropWhile_digits_dot[unfolded ds]
        parse_exponent_def pow10_def dec_val_def digit_val_digit_char is_digit_digit_char)
qed

lemma tenths_split: "(of_nat (n div 10) :: rat) + of_nat (n mod 10) / 10 = of_nat n / 10"
proof -
  have "(of_nat n :: rat) = of_nat (10 * (n div 10) + n mod 10)" by simp
  also have "\<dots> = 10 * of_nat (n div 10) + of_nat (n mod 10)" by (simp only: of_nat_add of_nat_mult of_nat_numeral)
  finally show ?thesis by (simp add: field_simps)
qed

lemma parseFloat_toFixed1:
  "parseFloat_string (toFixed1 x) =
     round_number (if x < 0 then - (of_nat (tenths x) / 10) else of_nat (tenths x) / 10)"
proof -
  let ?n = "tenths x"
  have d: "list_all is_digit (show_nat (?n div 10))" "show_nat (?n div 10) \<noteq> []" "?n mod 10 < 10"
    by (simp_all add: show_nat_digits show_nat_nonempty)
  have s: "show_nat (?n mod 10) = [digit_char (?n mod 10)]"
    by (simp add: show_nat_small)
  show ?thesis
  proof (cases "x < 0")
    case True
    then have "toFixed1 x = ''-'' @ show_nat (?n div 10) @ ''.'' @ [digit_char (?n mod 10)]"
      by (simp add: toFixed1_def Let_def s)
    with parse_negative[OF d] True show ?thesis
      by (simp add: dec_val_show_nat tenths_split)
  next
    case False
    then have "toFixed1 x = show_nat (?n div 10) @ ''.'' @ [digit_char (?n mod 10)]"
      by (simp add: toFixed1_def Let_def s)
    with parse_unsigned[OF d] False show ?thesis
      by (simp add: dec_val_show_nat tenths_split)
  qed
qed

lemma round_number_not_NaN: "round_number r \<noteq> NaN"
  by (simp add: round_number_def)

lemma parseFloat_toFixed1_finite: "parseFloat_string (toFixed1 x) \<noteq> NaN"
  by (simp only: parseFloat_toFixed1 round_number_not_NaN not_False_eq_True)

text \<open>A number from 0 to 100 is read as a double from 0 to 100.\<close>

lemma round_number_percentage:
  assumes "0 \<le> r" "r \<le> 100"
  shows "round_number r = Fin (dbl r)" and "0 \<le> dbl r" and "dbl r \<le> 100"
proof -
  show n: "0 \<le> dbl r" using assms(1) by (rule dbl_nonneg)
  show u: "dbl r \<le> 100" using dbl_le_integer[of r 100] assms(2) by simp
  have "(100::rat) < 2 ^ 1024"
  proof -
    have "(100::rat) < 2 ^ 7" by simp
    also have "(2::rat) ^ 7 \<le> 2 ^ 1024" by (rule power_increasing) simp_all
    finally show ?thesis .
  qed
  then have "dbl r < pow2 1024" using u by (simp add: pow2_def)
  then have "binary_exponent (dbl r) < 1024" using n by (intro binary_exponent_less) simp_all
  then show "round_number r = Fin (dbl r)" using n by (simp add: round_number_def overflows_def)
qed

text \<open>A percentage of a part of a whole is written as a number from 0 to 100.\<close>

lemma tenths_bound:
  assumes "0 \<le> x" "x \<le> 100"
  shows "tenths x \<le> 1000"
proof -
  from assms have "\<bar>x\<bar> * 10 + 1 / 2 < of_int 1001" by simp
  then have "\<lfloor>\<bar>x\<bar> * 10 + 1 / 2\<rfloor> < 1001" by (simp only: floor_less_iff)
  then show ?thesis unfolding tenths_def by linarith
qed

lemma toFixed1_percentage:
  assumes "0 \<le> x" "x \<le> 100"
  shows "\<exists>p. parseFloat_string (toFixed1 x) = Fin p \<and> 0 \<le> p \<and> p \<le> 100"
proof -
  let ?p = "(of_nat (tenths x) / 10 :: rat)"
  from tenths_bound[OF assms] have u: "?p \<le> 100" by simp
  have z: "0 \<le> ?p" by simp
  from assms have "parseFloat_string (toFixed1 x) = round_number ?p"
    by (simp add: parseFloat_toFixed1)
  with round_number_percentage[OF z u] show ?thesis by simp
qed

lemma rate_of_range: "v \<le> t \<Longrightarrow> 0 < t \<Longrightarrow> 0 \<le> rate_of t v \<and> rate_of t v \<le> 100"
  using percent_of_range[of "of_nat t - of_nat v" "of_nat t"] by (simp add: rate_of_def)

lemma share_range:
  "v \<le> t \<Longrightarrow> 0 < t \<Longrightarrow>
     0 \<le> percent_of (of_nat v) (of_nat t) \<and> percent_of (of_nat v) (of_nat t) \<le> 100"
  using percent_of_range[of "of_nat v" "of_nat t"] by simp

lemma parseFloat_zero: "parseFloat_string ''0'' = Fin 0"
  by code_simp

text \<open>
  The percentages of a finished bucket read back as numbers from 0 to 100, and both are
  the string "0" when the bucket is empty.
\<close>

lemma finish_bucket_bounds:
  assumes "violations b \<le> total b" "compliancePercentage b = ''0''" "violationPercentage b = ''0''"
  shows "\<exists>c v. parseFloat_string (compliancePercentage (finish_bucket b)) = Fin c \<and> 0 \<le> c \<and> c \<le> 100
           \<and> parseFloat_string (violationPercentage (finish_bucket b)) = Fin v \<and> 0 \<le> v \<and> v \<le> 100"
    and "total b = 0 \<Longrightarrow> compliancePercentage (finish_bucket b) = ''0''
           \<and> violationPercentage (finish_bucket b) = ''0''"
proof -
  show "total b = 0 \<Longrightarrow> compliancePercentage (finish_bucket b) = ''0''
           \<and> violationPercentage (finish_bucket b) = ''0''"
    using assms by (simp add: finish_bucket_def)
  show "\<exists>c v. parseFloat_string (compliancePercentage (finish_bucket b)) = Fin c \<and> 0 \<le> c \<and> c \<le> 100
           \<and> parseFloat_string (violationPercentage (finish_bucket b)) = Fin v \<and> 0 \<le> v \<and> v \<le> 100"
  proof (cases "0 < total b")
    case True
    from rate_of_range[OF assms(1) True] toFixed1_percentage
    obtain c where c: "parseFloat_string (toFixed1 (rate_of (total b) (violations b))) = Fin c"
      "0 \<le> c" "c \<le> 100" by blast
    from share_range[OF assms(1) True] toFixed1_percentage
    obtain v where v: "parseFloat_string (toFixed1 (percent_of (of_nat (violations b)) (of_nat (total b)))) = Fin v"
      "0 \<le> v" "v \<le> 100" by blast
    from True c v show ?thesis by (simp add: finish_bucket_def)
  next
    case False
    with assms show ?thesis by (simp add: finish_bucket_def parseFloat_zero)
  qed
qed

lemma counted_bucket_violations_le:
  "violations (counted_bucket f ts) \<le> total (counted_bucket f ts)"
  using count_where_violation_le [of f ts] by (simp add: counted_bucket_def)

lemma enhanced_percentage_bounds:
  assumes "analyzeSLAPerformance h (Some tickets) = Inr (Some r)"
  shows "\<exists>c v. parseFloat_string (compliancePercentage (firstResponseSLA r)) = Fin c \<and> 0 \<le> c \<and> c \<le> 100
           \<and> parseFloat_string (violationPercentage (firstResponseSLA r)) = Fin v \<and> 0 \<le> v \<and> v \<le> 100"
    and "\<exists>c v. parseFloat_string (compliancePercentage (resolutionSLA r)) = Fin c \<and> 0 \<le> c \<and> c \<le> 100
           \<and> parseFloat_string (violationPercentage (resolutionSLA r)) = Fin v \<and> 0 \<le> v \<and> v \<le> 100"
    and "total (firstResponseSLA r) = 0 \<Longrightarrow>
           compliancePercentage (firstResponseSLA r) = ''0'' \<and> violationPercentage (firstResponseSLA r) = ''0''"
    and "total (resolutionSLA r) = 0 \<Longrightarrow>
           compliancePercentage (resolutionSLA r) = ''0'' \<and> violationPercentage (resolutionSLA r) = ''0''"
proof -
  note f = analyze_buckets(1)[OF assms] and s = analyze_buckets(2)[OF assms]
  have zf: "compliancePercentage (counted_bucket (first_response_class h) tickets) = ''0''"
    "violationPercentage (counted_bucket (first_response_class h) tickets) = ''0''"
    and zs: "compliancePercentage (counted_bucket (resolution_class h) tickets) = ''0''"
    "violationPercentage (counted_bucket (resolution_class h) tickets) = ''0''"
    by (simp_all add: counted_bucket_def)
  show "\<exists>c v. parseFloat_string (compliancePercentage (firstResponseSLA r)) = Fin c \<and> 0 \<le> c \<and> c \<le> 100
           \<and> parseFloat_string (violationPercentage (firstResponseSLA r)) = Fin v \<and> 0 \<le> v \<and> v \<le> 100"
    unfolding f by (rule finish_bucket_bounds(1)[OF counted_bucket_violations_le zf])
  show "\<exists>c v. parseFloat_string (compliancePercentage (resolutionSLA r)) = Fin c \<and> 0 \<le> c \<and> c \<le> 100
           \<and> parseFloat_string (violationPercentage (resolutionSLA r)) = Fin v \<and> 0 \<le> v \<and> v \<le> 100"
    unfolding s by (rule finish_bucket_bounds(1)[OF counted_bucket_violations_le zs])
  show "total (firstResponseSLA r) = 0 \<Longrightarrow>
           compliancePercentage (firstResponseSLA r) = ''0'' \<and> violationPercentage (firstResponseSLA r) = ''0''"
    unfolding f finish_bucket_counts
    by (rule finish_bucket_bounds(2)[OF counted_bucket_violations_le zf])
  show "total (resolutionSLA r) = 0 \<Longrightarrow>
           compliancePercentage (resolutionSLA r) = ''0'' \<and> violationPercentage (resolutionSLA r) = ''0''"
    unfolding s finish_bucket_counts
    by (rule finish_bucket_bounds(2)[OF counted_bucket_violations_le zs])
qed

text \<open>The rates that the analyzer stores for its agents are never NaN.\<close>

lemma finish_agent_rate: "parseFloat (agent_complianceRate (finish_agent d)) \<noteq> NaN"
  by (simp add: finish_agent_def Let_def parseFloat_toFixed1_finite)

lemma finish_agents_rates:
  "\<forall>e \<in> set (agents (finish a)). parseFloat (agent_complianceRate (snd e)) \<noteq> NaN"
  by (auto simp: finish_def finish_agent_rate)

lemma analyze_insights:
  assumes "analyzeSLAPerformance h (Some tickets) = Inr (Some r)"
  shows "insights r = generatePerformanceInsights (analysis.truncate r)"
    and "\<forall>e \<in> set (agents r). parseFloat (agent_complianceRate (snd e)) \<noteq> NaN"
proof -
  from assms obtain a where
    r: "r = analysis.extend (finish a) (sla_analysis.fields (generatePerformanceInsights (finish a)))"
    by (auto elim!: analyze_cases)
  have t: "analysis.truncate r = finish a"
    by (simp add: r analysis.defs sla_analysis.defs)
  show "insights r = generatePerformanceInsights (analysis.truncate r)"
    unfolding t by (simp add: r extend_fields)
  show "\<forall>e \<in> set (agents r). parseFloat (agent_complianceRate (snd e)) \<noteq> NaN"
    using finish_agents_rates[of a] by (simp add: r extend_fields)
qed

section \<open>Properties of the inspector\<close>

lemma Set_values_set: "set (Set_values xs) = set xs"
  by (simp add: Set_values_def)

lemma Set_values_length: "length (Set_values xs) = card (set xs)"
  by (simp add: Set_values_def length_remdups_card_conv)

text \<open>
  C3. The inferred type of a column: when no sampled value is left after the null, undefined
  and empty cells are dropped, the type is "mixed" (not "unknown"); when the remaining values
  have exactly one type, it is that type; when they have several, it is "mixed".
\<close>

theorem columnType_cases:
  "(sampleValues rows col = [] \<longrightarrow> columnType rows col = ''mixed'')
   \<and> (\<forall>ty. set (map typeof (sampleValues rows col)) = {ty} \<longrightarrow> columnType rows col = ty)
   \<and> (1 < card (set (map typeof (sampleValues rows col))) \<longrightarrow> columnType rows col = ''mixed'')"
proof (intro conjI allI impI)
  assume "sampleValues rows col = []"
  then show "columnType rows col = ''mixed''"
    by (simp add: columnType_def Set_values_def)
next
  fix ty
  assume e: "set (map typeof (sampleValues rows col)) = {ty}"
  then have l: "length (Set_values (map typeof (sampleValues rows col))) = 1"
    by (simp add: Set_values_length)
  then obtain x where x: "Set_values (map typeof (sampleValues rows col)) = [x]"
    by (cases "Set_values (map typeof (sampleValues rows col))") auto
  with Set_values_set[of "map typeof (sampleValues rows col)"] e have "x = ty"
    by auto
  with x show "columnType rows col = ty"
    by (simp add: columnType_def)
next
  assume "1 < card (set (map typeof (sampleValues rows col)))"
  then show "columnType rows col = ''mixed''"
    by (simp add: columnType_def Set_values_length)
qed

theorem columnType_cases_witness:
  "sampleValues [[(''a'', JNull)], [(''a'', JStr [])]] ''a'' = []
   \<and> columnType [[(''a'', JNull)], [(''a'', JStr [])]] ''a'' = ''mixed''
   \<and> map_option columnTypes (analyzeDataStructure (Some [[(''a'', JNull)], [(''a'', JStr [])]]))
       = Some [(''a'', ''mixed'')]
   \<and> set (map typeof (sampleValues [[(''a'', JNum 1)], [(''a'', JNull)], [(''a'', JNum 2)]] ''a'')) = {''number''}
   \<and> columnType [[(''a'', JNum 1)], [(''a'', JNull)], [(''a'', JNum 2)]] ''a'' = ''number''
   \<and> 1 < card (set (map typeof (sampleValues [[(''a'', JNum 1)], [(''a'', JStr ''x'')]] ''a'')))
   \<and> columnType [[(''a'', JNum 1)], [(''a'', JStr ''x'')]] ''a'' = ''mixed''"
proof -
  have e: "sampleValues [[(''a'', JNull)], [(''a'', JStr [])]] ''a'' = []"
    by (simp add: sampleValues_def get_prop_def is_blank_def)
  have o: "set (map typeof (sampleValues [[(''a'', JNum 1)], [(''a'', JNull)], [(''a'', JNum 2)]] ''a'')) = {''number''}"
    by (simp add: sampleValues_def get_prop_def is_blank_def)
  have m: "1 < card (set (map typeof (sampleValues [[(''a'', JNum 1)], [(''a'', JStr ''x'')]] ''a'')))"
    by (simp add: sampleValues_def get_prop_def is_blank_def)
  have d: "map_option columnTypes (analyzeDataStructure (Some [[(''a'', JNull)], [(''a'', JStr [])]]))
       = Some [(''a'', ''mixed'')]"
    using columnType_cases [of "[[(''a'', JNull)], [(''a'', JStr [])]]" "''a''"] e
    by (simp add: analyzeDataStructure_def Object_keys_def obj_assign_def has_own_def Let_def)
  from columnType_cases [of "[[(''a'', JNull)], [(''a'', JStr [])]]" "''a''"]
    columnType_cases [of "[[(''a'', JNum 1)], [(''a'', JNull)], [(''a'', JNum 2)]]" "''a''"]
    columnType_cases [of "[[(''a'', JNum 1)], [(''a'', JStr ''x'')]]" "''a''"]
    e o m d
  show ?thesis by blast
qed

subsection \<open>The reported percentages\<close>

lemma counted_bucket_total_le: "total (counted_bucket f ts) \<le> length ts"
  by (simp add: counted_bucket_def count_where_def)

lemma percent_near:
  assumes "v \<le> t" "0 < t" "t < 2 ^ 32"
  shows "\<bar>of_nat (tenths (percent_of (of_nat t - of_nat v) (of_nat t))) / 10
           - (of_nat t - of_nat v) / of_nat t * 100\<bar> \<le> (1 / 20 :: rat)"
    and "\<bar>of_nat (tenths (percent_of (of_nat v) (of_nat t))) / 10
           - of_nat v / of_nat t * 100\<bar> \<le> (1 / 20 :: rat)"
proof -
  have d: "(of_nat t - of_nat v :: rat) = of_nat (t - v)"
    using assms(1) by (simp add: of_nat_diff)
  show "\<bar>of_nat (tenths (percent_of (of_nat t - of_nat v) (of_nat t))) / 10
           - (of_nat t - of_nat v) / of_nat t * 100\<bar> \<le> (1 / 20 :: rat)"
    unfolding d using assms by (intro tenths_percent_of) simp_all
  show "\<bar>of_nat (tenths (percent_of (of_nat v) (of_nat t))) / 10
           - of_nat v / of_nat t * 100\<bar> \<le> (1 / 20 :: rat)"
    using assms by (intro tenths_percent_of) simp_all
qed

lemma finished_bucket:
  assumes "b = finish_bucket c" "violations c \<le> total c" "total c < 2 ^ 32" "0 < total b"
  shows "compliancePercentage b =
           toFixed1 (percent_of (of_nat (total b) - of_nat (violations b)) (of_nat (total b)))
         \<and> violationPercentage b =
           toFixed1 (percent_of (of_nat (violations b)) (of_nat (total b)))
         \<and> \<bar>of_nat (tenths (percent_of (of_nat (total b) - of_nat (violations b)) (of_nat (total b)))) / 10
              - (of_nat (total b) - of_nat (violations b)) / of_nat (total b) * 100\<bar> \<le> (1 / 20 :: rat)
         \<and> \<bar>of_nat (tenths (percent_of (of_nat (violations b)) (of_nat (total b)))) / 10
              - of_nat (violations b) / of_nat (total b) * 100\<bar> \<le> (1 / 20 :: rat)"
proof -
  have t: "total b = total c" and v: "violations b = violations c"
    by (simp_all add: assms(1) finish_bucket_counts)
  from assms(4) have p: "0 < total c" by (simp add: t)
  have "compliancePercentage b =
          toFixed1 (percent_of (of_nat (total c) - of_nat (violations c)) (of_nat (total c)))"
    using p by (simp add: assms(1) finish_bucket_def rate_of_def)
  moreover have "violationPercentage b =
          toFixed1 (percent_of (of_nat (violations c)) (of_nat (total c)))"
    using p by (simp add: assms(1) finish_bucket_def)
  ultimately show ?thesis
    unfolding t v using percent_near[OF assms(2) p assms(3)] by simp
qed

lemma basic_finished_bucket:
  assumes "b = basic_finish_bucket c" "b_violations c \<le> b_total c" "b_compliance c \<le> b_total c"
    "b_total c < 2 ^ 32" "0 < b_total b"
  shows "b_compliancePercentage b =
           toFixed1 (percent_of (of_nat (b_compliance b)) (of_nat (b_total b)))
         \<and> b_violationPercentage b =
           Some (toFixed1 (percent_of (of_nat (b_violations b)) (of_nat (b_total b))))
         \<and> \<bar>of_nat (tenths (percent_of (of_nat (b_compliance b)) (of_nat (b_total b)))) / 10
              - of_nat (b_compliance b) / of_nat (b_total b) * 100\<bar> \<le> (1 / 20 :: rat)
         \<and> \<bar>of_nat (tenths (percent_of (of_nat (b_violations b)) (of_nat (b_total b)))) / 10
              - of_nat (b_violations b) / of_nat (b_total b) * 100\<bar> \<le> (1 / 20 :: rat)"
proof -
  have t: "b_total b = b_total c" and v: "b_violations b = b_violations c"
    and k: "b_compliance b = b_compliance c"
    by (simp_all add: assms(1) basic_finish_bucket_counts)
  from assms(5) have p: "0 < b_total c" by (simp add: t)
  have "b_compliancePercentage b =
          toFixed1 (percent_of (of_nat (b_compliance c)) (of_nat (b_total c)))"
    using p by (simp add: assms(1) basic_finish_bucket_def)
  moreover have "b_violationPercentage b =
          Some (toFixed1 (percent_of (of_nat (b_violations c)) (of_nat (b_total c))))"
    using p by (simp add: assms(1) basic_finish_bucket_def)
  ultimately show ?thesis
    unfolding t v k
    using percent_near(2)[OF assms(2) p assms(4)] percent_near(2)[OF assms(3) p assms(4)]
    by simp
qed

lemma basic_counts_le:
  "b_violations (b_firstResponseSLA (foldl (basic_process_ticket h)
      \<lparr>b_totalTickets = n, b_firstResponseSLA = basic_empty_bucket,
       b_resolutionSLA = basic_empty_bucket, b_agents = [], b_categories = []\<rparr> ts))
     \<le> b_total (b_firstResponseSLA (foldl (basic_process_ticket h)
      \<lparr>b_totalTickets = n, b_firstResponseSLA = basic_empty_bucket,
       b_resolutionSLA = basic_empty_bucket, b_agents = [], b_categories = []\<rparr> ts))"
  "b_compliance (b_firstResponseSLA (foldl (basic_process_ticket h)
      \<lparr>b_totalTickets = n, b_firstResponseSLA = basic_empty_bucket,
       b_resolutionSLA = basic_empty_bucket, b_agents = [], b_categories = []\<rparr> ts))
     \<le> b_total (b_firstResponseSLA (foldl (basic_process_ticket h)
      \<lparr>b_totalTickets = n, b_firstResponseSLA = basic_empty_bucket,
       b_resolutionSLA = basic_empty_bucket, b_agents = [], b_categories = []\<rparr> ts))"
  "b_total (b_firstResponseSLA (foldl (basic_process_ticket h)
      \<lparr>b_totalTickets = n, b_firstResponseSLA = basic_empty_bucket,
       b_resolutionSLA = basic_empty_bucket, b_agents = [], b_categories = []\<rparr> ts))
     \<le> length ts"
  "b_violations (b_resolutionSLA (foldl (basic_process_ticket h)
      \<lparr>b_totalTickets = n, b_firstResponseSLA = basic_empty_bucket,
       b_resolutionSLA = basic_empty_bucket, b_agents = [], b_categories = []\<rparr> ts))
     \<le> b_total (b_resolutionSLA (foldl (basic_process_ticket h)
      \<lparr>b_totalTickets = n, b_firstResponseSLA = basic_empty_bucket,
       b_resolutionSLA = basic_empty_bucket, b_agents = [], b_categories = []\<rparr> ts))"
  "b_compliance (b_resolutionSLA (foldl (basic_process_ticket h)
      \<lparr>b_totalTickets = n, b_firstResponseSLA = basic_empty_bucket,
       b_resolutionSLA = basic_empty_bucket, b_agents = [], b_categories = []\<rparr> ts))
     \<le> b_total (b_resolutionSLA (foldl (basic_process_ticket h)
      \<lparr>b_totalTickets = n, b_firstResponseSLA = basic_empty_bucket,
       b_resolutionSLA = basic_empty_bucket, b_agents = [], b_categories = []\<rparr> ts))"
  "b_total (b_resolutionSLA (foldl (basic_process_ticket h)
      \<lparr>b_totalTickets = n, b_firstResponseSLA = basic_empty_bucket,
       b_resolutionSLA = basic_empty_bucket, b_agents = [], b_categories = []\<rparr> ts))
     \<le> length ts"
  using count_where_disjoint [of "basic_first_response_class h" ts]
    count_where_disjoint [of "basic_resolution_class h" ts]
  by (simp_all add: basic_fold_frs basic_fold_res basic_empty_bucket_def)
     (simp_all add: count_where_def)

text \<open>
  C1. A bucket with \<open>total > 0\<close> reports \<open>((total - violations) / total * 100).toFixed(1)\<close>
  as its compliance percentage and \<open>(violations / total * 100).toFixed(1)\<close> as its violation
  percentage, where the quotient and the product are rounded to doubles; in the first
  version of the analyzer the compliance percentage is \<open>(compliance / total * 100).toFixed(1)\<close>
  instead. For a dataset that fits in an array, each written number lies within 0.05 of
  the exact percentage: it is that percentage rounded to one decimal place, except that a
  percentage halfway between two tenths may be written as either of them.
\<close>

theorem sla_percentages:
  "length tickets < 2 ^ 32 \<Longrightarrow>
   (analyzeSLAPerformance h (Some tickets) = Inr (Some r) \<longrightarrow>
      (\<forall>b \<in> {firstResponseSLA r, resolutionSLA r}. 0 < total b \<longrightarrow>
         compliancePercentage b =
           toFixed1 (percent_of (of_nat (total b) - of_nat (violations b)) (of_nat (total b)))
         \<and> violationPercentage b =
           toFixed1 (percent_of (of_nat (violations b)) (of_nat (total b)))
         \<and> \<bar>of_nat (tenths (percent_of (of_nat (total b) - of_nat (violations b)) (of_nat (total b)))) / 10
              - (of_nat (total b) - of_nat (violations b)) / of_nat (total b) * 100\<bar> \<le> (1 / 20 :: rat)
         \<and> \<bar>of_nat (tenths (percent_of (of_nat (violations b)) (of_nat (total b)))) / 10
              - of_nat (violations b) / of_nat (total b) * 100\<bar> \<le> (1 / 20 :: rat)))
   \<and> (analyzeSLAPerformance_basic h (Some tickets) = Some a \<longrightarrow>
      (\<forall>b \<in> {b_firstResponseSLA a, b_resolutionSLA a}. 0 < b_total b \<longrightarrow>
         b_compliancePercentage b =
           toFixed1 (percent_of (of_nat (b_compliance b)) (of_nat (b_total b)))
         \<and> b_violationPercentage b =
           Some (toFixed1 (percent_of (of_nat (b_violations b)) (of_nat (b_total b))))
         \<and> \<bar>of_nat (tenths (percent_of (of_nat (b_compliance b)) (of_nat (b_total b)))) / 10
              - of_nat (b_compliance b) / of_nat (b_total b) * 100\<bar> \<le> (1 / 20 :: rat)
         \<and> \<bar>of_nat (tenths (percent_of (of_nat (b_violations b)) (of_nat (b_total b)))) / 10
              - of_nat (b_violations b) / of_nat (b_total b) * 100\<bar> \<le> (1 / 20 :: rat)))"
proof (intro conjI impI ballI)
  fix b
  assume len: "length tickets < 2 ^ 32"
    and r: "analyzeSLAPerformance h (Some tickets) = Inr (Some r)"
    and b: "b \<in> {firstResponseSLA r, resolutionSLA r}" and p: "0 < total b"
  from b analyze_buckets[OF r] obtain f
    where f: "b = finish_bucket (counted_bucket f tickets)" by auto
  have "total (counted_bucket f tickets) < 2 ^ 32"
    using counted_bucket_total_le[of f tickets] len by simp
  from finished_bucket[OF f counted_bucket_violations_le this p]
  show "compliancePercentage b =
           toFixed1 (percent_of (of_nat (total b) - of_nat (violations b)) (of_nat (total b)))"
    and "violationPercentage b =
           toFixed1 (percent_of (of_nat (violations b)) (of_nat (total b)))"
    and "\<bar>of_nat (tenths (percent_of (of_nat (total b) - of_nat (violations b)) (of_nat (total b)))) / 10
              - (of_nat (total b) - of_nat (violations b)) / of_nat (total b) * 100\<bar> \<le> (1 / 20 :: rat)"
    and "\<bar>of_nat (tenths (percent_of (of_nat (violations b)) (of_nat (total b)))) / 10
              - of_nat (violations b) / of_nat (total b) * 100\<bar> \<le> (1 / 20 :: rat)"
    by blast+
next
  fix b
  assume len: "length tickets < 2 ^ 32"
    and a: "analyzeSLAPerformance_basic h (Some tickets) = Some a"
    and b: "b \<in> {b_firstResponseSLA a, b_resolutionSLA a}" and p: "0 < b_total b"
  from b basic_analyze_cases[OF a] basic_counts_le[of h "length tickets" tickets] len
  obtain c where c: "b = basic_finish_bucket c" "b_violations c \<le> b_total c"
    "b_compliance c \<le> b_total c" "b_total c < 2 ^ 32"
    by (cases "b = b_firstResponseSLA a") auto
  from basic_finished_bucket[OF c p]
  show "b_compliancePercentage b =
           toFixed1 (percent_of (of_nat (b_compliance b)) (of_nat (b_total b)))"
    and "b_violationPercentage b =
           Some (toFixed1 (percent_of (of_nat (b_violations b)) (of_nat (b_total b))))"
    and "\<bar>of_nat (tenths (percent_of (of_nat (b_compliance b)) (of_nat (b_total b)))) / 10
              - of_nat (b_compliance b) / of_nat (b_total b) * 100\<bar> \<le> (1 / 20 :: rat)"
    and "\<bar>of_nat (tenths (percent_of (of_nat (b_violations b)) (of_nat (b_total b)))) / 10
              - of_nat (b_violations b) / of_nat (b_total b) * 100\<bar> \<le> (1 / 20 :: rat)"
    by blast+
qed

lemma double_breach_returns:
  "\<exists>r. analyzeSLAPerformance example_host (Some double_breach) = Inr (Some r)"
proof -
  have "returns_analysis (analyzeSLAPerformance example_host (Some double_breach))"
    by code_simp
  then show ?thesis
    by (auto simp: returns_analysis_def split: sum.splits option.splits)
qed

lemma double_breach_returns_basic:
  "\<exists>b. analyzeSLAPerformance_basic example_host (Some double_breach) = Some b"
  by (simp add: analyzeSLAPerformance_basic_def double_breach_def Let_def)

lemma double_breach_buckets:
  "counted_bucket (first_response_class example_host) double_breach =
     \<lparr>violations = 1, compliance = 0, total = 1, compliancePercentage = ''0'', violationPercentage = ''0''\<rparr>"
  "counted_bucket (resolution_class example_host) double_breach =
     \<lparr>violations = 1, compliance = 0, total = 1, compliancePercentage = ''0'', violationPercentage = ''0''\<rparr>"
  by code_simp+

lemma double_breach_basic_counts:
  "count_where (\<lambda>t. basic_first_response_class example_host t \<noteq> None) double_breach = 1"
  "count_where (\<lambda>t. basic_resolution_class example_host t \<noteq> None) double_breach = 1"
  by code_simp+

lemma percent_examples:
  "toFixed1 (percent_of 0 1) = ''0.0''" "toFixed1 (percent_of 1 1) = ''100.0''"
  by code_simp+

theorem sla_percentages_witness:
  "\<exists>r a. length double_breach < 2 ^ 32
     \<and> analyzeSLAPerformance example_host (Some double_breach) = Inr (Some r)
     \<and> analyzeSLAPerformance_basic example_host (Some double_breach) = Some a
     \<and> 0 < total (firstResponseSLA r) \<and> 0 < total (resolutionSLA r)
     \<and> 0 < b_total (b_firstResponseSLA a) \<and> 0 < b_total (b_resolutionSLA a)
     \<and> compliancePercentage (firstResponseSLA r) = ''0.0''
     \<and> violationPercentage (firstResponseSLA r) = ''100.0''
     \<and> compliancePercentage (resolutionSLA r) = ''0.0''
     \<and> violationPercentage (resolutionSLA r) = ''100.0''"
proof -
  from double_breach_returns obtain r
    where r: "analyzeSLAPerformance example_host (Some double_breach) = Inr (Some r)" ..
  from double_breach_returns_basic obtain a
    where a: "analyzeSLAPerformance_basic example_host (Some double_breach) = Some a" ..
  have l: "length double_breach < 2 ^ 32" by (simp add: double_breach_def)
  have f: "total (firstResponseSLA r) = 1" "violations (firstResponseSLA r) = 1"
    and s: "total (resolutionSLA r) = 1" "violations (resolutionSLA r) = 1"
    by (simp_all add: analyze_buckets[OF r] finish_bucket_counts double_breach_buckets)
  have bf: "b_total (b_firstResponseSLA a) = 1" and bs: "b_total (b_resolutionSLA a) = 1"
    using double_breach_basic_counts
    by (simp_all add: basic_analyze_cases[OF a] basic_finish_bucket_counts basic_fold_frs
        basic_fold_res basic_empty_bucket_def)
  from sla_percentages [OF l, of example_host r a] r
  have "\<forall>b \<in> {firstResponseSLA r, resolutionSLA r}. 0 < total b \<longrightarrow>
         compliancePercentage b =
           toFixed1 (percent_of (of_nat (total b) - of_nat (violations b)) (of_nat (total b)))
         \<and> violationPercentage b =
           toFixed1 (percent_of (of_nat (violations b)) (of_nat (total b)))"
    by blast
  then have "compliancePercentage (firstResponseSLA r) = ''0.0''"
    "violationPercentage (firstResponseSLA r) = ''100.0''"
    "compliancePercentage (resolutionSLA r) = ''0.0''"
    "violationPercentage (resolutionSLA r) = ''100.0''"
    using f s by (simp_all add: percent_examples)
  with l r a f s bf bs show ?thesis
    by (intro exI[of _ r] exI[of _ a]) simp
qed

text \<open>
  Two datasets on which a reported compliance percentage is not
  \<open>(total - violations) / total * 100\<close> rounded to one decimal place. For 29 violations
  among 80 tickets the percentage is 63.75, which rounds to 63.8; the doubles give
  63.74999999999999, and the analyzer with insights reports "63.7". The first version, on
  one ticket whose status has no keyword of either kind, counts no violation and one
  ticket and reports "0.0", where the percentage is 100.
\<close>

lemma tie_tickets_classes:
  "first_response_class example_host violated_ticket = Some Violation"
  "first_response_class example_host met_ticket = Some Compliant"
  by code_simp+

lemma tie_tickets_no_throw:
  "\<not> ticket_throws example_host j violated_ticket" "\<not> ticket_throws example_host j met_ticket"
  by (simp_all add: ticket_throws_def violated_ticket_def met_ticket_def get_prop_def
      inherited_keys_def example_host_def)

lemma tie_tickets_returns:
  "\<exists>r. analyzeSLAPerformance example_host (Some tie_tickets) = Inr (Some r)"
proof (rule analyzer_returns)
  show "tie_tickets \<noteq> []" by (simp add: tie_tickets_def)
  have "t = violated_ticket \<or> t = met_ticket" if "(j, t) \<in> set (enumerate 0 tie_tickets)" for j t
  proof -
    from that have "t \<in> set tie_tickets" by (auto simp: in_set_enumerate_eq)
    then show ?thesis by (auto simp: tie_tickets_def)
  qed
  then show "\<not> list_ex (\<lambda>(j, t). ticket_throws example_host j t) (enumerate 0 tie_tickets)"
    using tie_tickets_no_throw by (auto simp: list_ex_iff)
qed

lemma tie_tickets_bucket:
  "counted_bucket (first_response_class example_host) tie_tickets =
     \<lparr>violations = 29, compliance = 51, total = 80, compliancePercentage = ''0'',
      violationPercentage = ''0''\<rparr>"
  by (simp add: counted_bucket_def count_where_def tie_tickets_def tie_tickets_classes)

lemma tie_percentage:
  "compliancePercentage (finish_bucket
     \<lparr>violations = 29, compliance = 51, total = 80, compliancePercentage = ''0'',
      violationPercentage = ''0''\<rparr>) = ''63.7''"
  "toFixed1 (255 / 4) = ''63.8''"
  by code_simp+

theorem sla_percentages_counterexample:
  "(case analyzeSLAPerformance example_host (Some tie_tickets) of
      Inr (Some r) \<Rightarrow>
        total (firstResponseSLA r) = 80 \<and> violations (firstResponseSLA r) = 29
        \<and> compliancePercentage (firstResponseSLA r) = ''63.7''
        \<and> (of_nat (total (firstResponseSLA r)) - of_nat (violations (firstResponseSLA r)))
             / of_nat (total (firstResponseSLA r)) * 100 = (255 / 4 :: rat)
        \<and> toFixed1 (255 / 4) = ''63.8''
    | _ \<Rightarrow> False)
   \<and> (case analyzeSLAPerformance_basic example_host (Some pending_ticket) of
        Some b \<Rightarrow>
          b_total (b_firstResponseSLA b) = 1 \<and> b_violations (b_firstResponseSLA b) = 0
          \<and> b_compliancePercentage (b_firstResponseSLA b) = ''0.0''
          \<and> toFixed1 (((of_nat (b_total (b_firstResponseSLA b)) - of_nat (b_violations (b_firstResponseSLA b)))
                        / of_nat (b_total (b_firstResponseSLA b))) * 100) = ''100.0''
      | None \<Rightarrow> False)"
proof -
  from tie_tickets_returns obtain r
    where r: "analyzeSLAPerformance example_host (Some tie_tickets) = Inr (Some r)" ..
  have f: "firstResponseSLA r =
             finish_bucket \<lparr>violations = 29, compliance = 51, total = 80,
                            compliancePercentage = ''0'', violationPercentage = ''0''\<rparr>"
    by (simp only: analyze_buckets(1)[OF r] tie_tickets_bucket)
  have "total (firstResponseSLA r) = 80" "violations (firstResponseSLA r) = 29"
    by (simp_all add: f finish_bucket_counts)
  moreover have "compliancePercentage (firstResponseSLA r) = ''63.7''"
    by (simp only: f tie_percentage)
  ultimately have t: "case analyzeSLAPerformance example_host (Some tie_tickets) of
      Inr (Some r) \<Rightarrow>
        total (firstResponseSLA r) = 80 \<and> violations (firstResponseSLA r) = 29
        \<and> compliancePercentage (firstResponseSLA r) = ''63.7''
        \<and> (of_nat (total (firstResponseSLA r)) - of_nat (violations (firstResponseSLA r)))
             / of_nat (total (firstResponseSLA r)) * 100 = (255 / 4 :: rat)
        \<and> toFixed1 (255 / 4) = ''63.8''
    | _ \<Rightarrow> False"
    by (simp add: r tie_percentage(2))
  have p: "case analyzeSLAPerformance_basic example_host (Some pending_ticket) of
        Some b \<Rightarrow>
          b_total (b_firstResponseSLA b) = 1 \<and> b_violations (b_firstResponseSLA b) = 0
          \<and> b_compliancePercentage (b_firstResponseSLA b) = ''0.0''
          \<and> toFixed1 (((of_nat (b_total (b_firstResponseSLA b)) - of_nat (b_violations (b_firstResponseSLA b)))
                        / of_nat (b_total (b_firstResponseSLA b))) * 100) = ''100.0''
      | None \<Rightarrow> False"
    by code_simp
  from t p show ?thesis by (rule conjI)
qed
subsection \<open>The insights\<close>

lemma js_greater_minus:
  "a \<noteq> NaN \<Longrightarrow> b \<noteq> NaN \<Longrightarrow> js_greater (js_minus b a) (Fin 0) \<longleftrightarrow> js_less a b"
  by (cases a; cases b) (auto simp: js_greater_def)

lemma js_less_asym: "js_less a b \<Longrightarrow> \<not> js_less b a"
  by (cases a; cases b) auto

lemma js_ge_trans:
  "a \<noteq> NaN \<Longrightarrow> b \<noteq> NaN \<Longrightarrow> c \<noteq> NaN \<Longrightarrow>
     \<not> js_less a b \<Longrightarrow> \<not> js_less b c \<Longrightarrow> \<not> js_less a c"
  by (cases a; cases b; cases c) auto

lemma set_insert_by: "set (insert_by cmp x ys) = insert x (set ys)"
  by (induction ys) auto

lemma mset_insert_by: "mset (insert_by cmp x ys) = add_mset x (mset ys)"
  by (induction ys) auto

lemma mset_sort_by: "mset (sort_by cmp xs) = mset xs"
  by (induction xs) (auto simp: sort_by_def mset_insert_by)

lemma set_sort_by: "set (sort_by cmp xs) = set xs"
  using mset_sort_by [of cmp xs] by (metis set_mset_mset)

lemma length_sort_by: "length (sort_by cmp xs) = length xs"
  using mset_sort_by [of cmp xs] by (metis size_mset)

text \<open>Sorting by a key in descending order.\<close>

lemma sorted_insert_by:
  assumes "sorted_wrt (\<lambda>p q. \<not> js_less (f p) (f q)) ys"
    and "f x \<noteq> NaN" and "\<forall>y \<in> set ys. f y \<noteq> NaN"
  shows "sorted_wrt (\<lambda>p q. \<not> js_less (f p) (f q)) (insert_by (\<lambda>p q. js_minus (f q) (f p)) x ys)"
  using assms
proof (induction ys)
  case Nil
  then show ?case by simp
next
  case (Cons y ys)
  show ?case
  proof (cases "js_less (f x) (f y)")
    case True
    with Cons.prems have g: "js_greater (js_minus (f y) (f x)) (Fin 0)"
      by (simp add: js_greater_minus)
    from Cons have ih: "sorted_wrt (\<lambda>p q. \<not> js_less (f p) (f q)) (insert_by (\<lambda>p q. js_minus (f q) (f p)) x ys)"
      by simp
    from True have "\<not> js_less (f y) (f x)" by (rule js_less_asym)
    with Cons.prems ih g show ?thesis
      by (auto simp: set_insert_by)
  next
    case False
    with Cons.prems have g: "\<not> js_greater (js_minus (f y) (f x)) (Fin 0)"
      by (simp add: js_greater_minus)
    have "\<not> js_less (f x) (f z)" if "z \<in> set ys" for z
    proof -
      from that Cons.prems have "\<not> js_less (f y) (f z)" "f z \<noteq> NaN" "f y \<noteq> NaN" by auto
      with False Cons.prems(2) show ?thesis by (meson js_ge_trans)
    qed
    with Cons.prems False g show ?thesis by auto
  qed
qed

lemma sorted_sort_by:
  assumes "\<forall>y \<in> set xs. f y \<noteq> NaN"
  shows "sorted_wrt (\<lambda>p q. \<not> js_less (f p) (f q)) (sort_by (\<lambda>p q. js_minus (f q) (f p)) xs)"
  using assms
proof (induction xs)
  case Nil
  then show ?case by (simp add: sort_by_def)
next
  case (Cons x xs)
  then have "sorted_wrt (\<lambda>p q. \<not> js_less (f p) (f q)) (sort_by (\<lambda>p q. js_minus (f q) (f p)) xs)"
    by simp
  moreover have "\<forall>y \<in> set (sort_by (\<lambda>p q. js_minus (f q) (f p)) xs). f y \<noteq> NaN"
    using Cons.prems by (simp add: set_sort_by)
  ultimately have "sorted_wrt (\<lambda>p q. \<not> js_less (f p) (f q))
      (insert_by (\<lambda>p q. js_minus (f q) (f p)) x (sort_by (\<lambda>p q. js_minus (f q) (f p)) xs))"
    using Cons.prems by (intro sorted_insert_by) auto
  then show ?case by (simp add: sort_by_def)
qed

text \<open>
  C9. The insights rank the agents by descending compliance rate: the ranking is a
  rearrangement of the agents in which no agent is followed by one with a higher rate;
  \<open>topPerformers\<close> are its first three entries, and \<open>improvementAreas\<close> are the first
  three of its entries whose rate is strictly below 90. For agents with rates 92, 80 and
  100, \<open>topPerformers\<close> lists the three in the order 100, 92, 80 and
  \<open>improvementAreas\<close> holds the agent with 80 only. The insights that the analyzer returns
  are those of its own analysis, whose agents all have a rate that is a number.
\<close>

theorem insights_ranking:
  "((\<forall>e \<in> set (agents a). parseFloat (agent_complianceRate (snd e)) \<noteq> NaN) \<longrightarrow>
       mset (agentPerformance a) = mset (map agent_entry (agents a))
       \<and> sorted_wrt (\<lambda>p q. \<not> js_less (perf_complianceRate p) (perf_complianceRate q)) (agentPerformance a)
       \<and> topPerformers (generatePerformanceInsights a) = take 3 (agentPerformance a)
       \<and> improvementAreas (generatePerformanceInsights a)
            = take 3 (filter (\<lambda>p. js_less (perf_complianceRate p) (Fin 90)) (agentPerformance a))
       \<and> (\<forall>p \<in> set (improvementAreas (generatePerformanceInsights a)). js_less (perf_complianceRate p) (Fin 90))
       \<and> length (topPerformers (generatePerformanceInsights a)) = min 3 (length (agents a))
       \<and> length (improvementAreas (generatePerformanceInsights a)) \<le> 3)
   \<and> (analyzeSLAPerformance h (Some tickets) = Inr (Some r) \<longrightarrow>
       insights r = generatePerformanceInsights (analysis.truncate r)
       \<and> (\<forall>e \<in> set (agents (analysis.truncate r)). parseFloat (agent_complianceRate (snd e)) \<noteq> NaN))
   \<and> map (\<lambda>p. (perf_agent p, perf_complianceRate p)) (topPerformers (generatePerformanceInsights scenario_5))
        = [(''A'', Fin 100), (''B'', Fin 92), (''C'', Fin 80)]
   \<and> map (\<lambda>p. (perf_agent p, perf_complianceRate p)) (improvementAreas (generatePerformanceInsights scenario_5))
        = [(''C'', Fin 80)]"
proof (intro conjI impI)
  assume fin: "\<forall>e \<in> set (agents a). parseFloat (agent_complianceRate (snd e)) \<noteq> NaN"
  show "mset (agentPerformance a) = mset (map agent_entry (agents a))"
    by (simp add: agentPerformance_def mset_sort_by)
  have "\<forall>y \<in> set (map agent_entry (agents a)). perf_complianceRate y \<noteq> NaN"
    using fin by (auto simp: agent_entry_def)
  then show "sorted_wrt (\<lambda>p q. \<not> js_less (perf_complianceRate p) (perf_complianceRate q)) (agentPerformance a)"
    unfolding agentPerformance_def by (rule sorted_sort_by)
  show "topPerformers (generatePerformanceInsights a) = take 3 (agentPerformance a)"
    by (simp add: generatePerformanceInsights_def slice3_def)
  show "improvementAreas (generatePerformanceInsights a)
            = take 3 (filter (\<lambda>p. js_less (perf_complianceRate p) (Fin 90)) (agentPerformance a))"
    by (simp add: generatePerformanceInsights_def slice3_def)
  show "\<forall>p \<in> set (improvementAreas (generatePerformanceInsights a)). js_less (perf_complianceRate p) (Fin 90)"
    by (auto simp: generatePerformanceInsights_def slice3_def dest: in_set_takeD)
  show "length (topPerformers (generatePerformanceInsights a)) = min 3 (length (agents a))"
    by (simp add: generatePerformanceInsights_def slice3_def agentPerformance_def length_sort_by min.commute)
  show "length (improvementAreas (generatePerformanceInsights a)) \<le> 3"
    by (simp add: generatePerformanceInsights_def slice3_def)
next
  assume r: "analyzeSLAPerformance h (Some tickets) = Inr (Some r)"
  show "insights r = generatePerformanceInsights (analysis.truncate r)"
    by (rule analyze_insights(1)[OF r])
  have "agents (analysis.truncate r) = agents r"
    by (simp add: analysis.defs)
  with analyze_insights(2)[OF r]
  show "\<forall>e \<in> set (agents (analysis.truncate r)). parseFloat (agent_complianceRate (snd e)) \<noteq> NaN"
    by simp
next
  show "map (\<lambda>p. (perf_agent p, perf_complianceRate p)) (topPerformers (generatePerformanceInsights scenario_5))
        = [(''A'', Fin 100), (''B'', Fin 92), (''C'', Fin 80)]"
    by code_simp
  show "map (\<lambda>p. (perf_agent p, perf_complianceRate p)) (improvementAreas (generatePerformanceInsights scenario_5))
        = [(''C'', Fin 80)]"
    by code_simp
qed

theorem insights_ranking_witness:
  "list_all (\<lambda>e. parseFloat (agent_complianceRate (snd e)) \<noteq> NaN) (agents scenario_5)
   \<and> (\<exists>r. analyzeSLAPerformance example_host (Some scenario_1) = Inr (Some r)
          \<and> insights r = generatePerformanceInsights (analysis.truncate r))
   \<and> map (\<lambda>p. perf_agent p) (agentPerformance scenario_5) = [''A'', ''B'', ''C'']
   \<and> sorted_wrt (\<lambda>p q. \<not> js_less (perf_complianceRate p) (perf_complianceRate q)) (agentPerformance scenario_5)
   \<and> length (improvementAreas (generatePerformanceInsights scenario_5)) \<le> 3"
proof -
  have h: "\<forall>e \<in> set (agents scenario_5). parseFloat (agent_complianceRate (snd e)) \<noteq> NaN"
    by code_simp
  then have l: "list_all (\<lambda>e. parseFloat (agent_complianceRate (snd e)) \<noteq> NaN) (agents scenario_5)"
    by (simp only: list_all_iff)
  have n: "map (\<lambda>p. perf_agent p) (agentPerformance scenario_5) = [''A'', ''B'', ''C'']"
    by code_simp
  from scenario_1_returns obtain r
    where r: "analyzeSLAPerformance example_host (Some scenario_1) = Inr (Some r)" ..
  with insights_ranking [of scenario_5 example_host scenario_1 r]
  have i: "\<exists>r. analyzeSLAPerformance example_host (Some scenario_1) = Inr (Some r)
          \<and> insights r = generatePerformanceInsights (analysis.truncate r)"
    by blast
  from insights_ranking [of scenario_5 example_host scenario_1 r] h
  have "sorted_wrt (\<lambda>p q. \<not> js_less (perf_complianceRate p) (perf_complianceRate q)) (agentPerformance scenario_5)
        \<and> length (improvementAreas (generatePerformanceInsights scenario_5)) \<le> 3"
    by blast
  with l n i show ?thesis by blast
qed

end
